theory Spec2Isabelle
  imports Complex_Main
begin

section \<open>Data model\<close>

text \<open>
  The three gameplay services (player.service.ts, enemy.service.ts,
  game-engine.service.ts) are Angular root singletons that the engine's constructor wires
  to each other, so their fields form one state, the record \<open>world\<close> below.
  A TypeScript \<open>number\<close> is modelled as a real (so NaN, the infinities and rounding are
  outside the model) except where the code only ever holds an integer (tile indices,
  the floor counter, the kill counter, enemy ids).
\<close>

datatype TileType = Floor | Wall | Exit | Entrance

record Tile =
  t_x :: int
  t_y :: int
  t_type :: TileType
  walkable :: bool

datatype GameState = MENU | PLAYING | GAME_OVER | LEVEL_UP

record PlayerInput =
  in_up :: bool
  in_down :: bool
  in_left :: bool
  in_right :: bool
  in_attack :: bool
  in_mouseX :: real
  in_mouseY :: real

record Player =
  p_x :: real
  p_y :: real
  p_width :: real
  p_height :: real
  p_health :: real
  p_maxHealth :: real
  p_xp :: real
  p_level :: real
  p_damage :: real
  p_speed :: real
  p_attackSpeed :: real
  p_lastAttackTime :: real
  p_facing :: real
  p_hasRegeneration :: bool
  p_lastRegenTime :: real

text \<open>The interfaces Projectile and EnemyProjectile have the same six fields.\<close>

record Projectile =
  pr_x :: real
  pr_y :: real
  pr_vx :: real
  pr_vy :: real
  pr_damage :: real
  pr_lifetime :: real

type_synonym EnemyProjectile = Projectile

datatype EnemyType = Melee | Ranged | Fast | Boss

text \<open>
  An enemy object. Its \<open>id\<close> is the decimal string of the counter \<open>nextEnemyId\<close> at
  construction and is never written again, so it identifies the object; the model uses
  that number as the object's reference (see \<open>enemyObjs\<close> below) and has no separate
  id field. The cosmetic \<open>color\<close> is left out.
\<close>

record Enemy =
  e_x :: real
  e_y :: real
  e_radius :: real
  e_health :: real
  e_maxHealth :: real
  e_damage :: real
  e_speed :: real
  e_type :: EnemyType
  e_attackCooldown :: real
  e_lastAttackTime :: real
  e_targetX :: real
  e_targetY :: real
  e_isAttacking :: bool
  e_patrolDirection :: real
  e_lastDirectionChange :: real
  e_xpValue :: real

text \<open>
  The state of the three services. \<open>enemies\<close> is the array of EnemyService, holding
  references; \<open>enemyObjs\<close> is the store of the enemy objects those references (and the
  references held in a list of hits) point to, so that an object removed from the array
  can still be reached and written, as in the source. \<open>tiles\<close> is \<open>tiles[y][x]\<close>.
  The rendering context, the camera, the two timestamps of the engine, the published
  statistics and \<open>levelUpOptions\<close> are not read by any function modelled here and are
  left out.
\<close>

record world =
  player :: Player
  projectiles :: "Projectile list"
  currentInput :: PlayerInput
  enemies :: "nat list"
  enemyObjs :: "nat \<Rightarrow> Enemy option"
  enemyProjectiles :: "EnemyProjectile list"
  nextEnemyId :: nat
  gameState :: GameState
  currentFloor :: int
  enemiesKilled :: int
  tiles :: "Tile list list"

section \<open>PlayerService\<close>

definition defaultPlayer :: Player where
  "defaultPlayer = \<lparr> p_x = 400, p_y = 300, p_width = 24, p_height = 24,
     p_health = 100, p_maxHealth = 100, p_xp = 0, p_level = 1, p_damage = 10,
     p_speed = 150, p_attackSpeed = 1, p_lastAttackTime = 0, p_facing = 0,
     p_hasRegeneration = False, p_lastRegenTime = 0 \<rparr>"

definition resetPlayer :: "world \<Rightarrow> world" where
  "resetPlayer s = s\<lparr> player := defaultPlayer, projectiles := [] \<rparr>"

definition setPosition :: "real \<Rightarrow> real \<Rightarrow> world \<Rightarrow> world" where
  "setPosition x y s = s\<lparr> player := (player s)\<lparr> p_x := x, p_y := y \<rparr> \<rparr>"

text \<open>GameEngineService.stopGame and showLevelUpScreen, as far as the state above goes.\<close>

definition stopGame :: "world \<Rightarrow> world" where
  "stopGame s = s\<lparr> gameState := GAME_OVER \<rparr>"

definition showLevelUpScreen :: "world \<Rightarrow> world" where
  "showLevelUpScreen s = s\<lparr> gameState := LEVEL_UP \<rparr>"

definition onPlayerDeath :: "world \<Rightarrow> world" where
  "onPlayerDeath s = stopGame s"

definition takeDamage :: "real \<Rightarrow> world \<Rightarrow> world" where
  "takeDamage dmg s =
     (let s1 = s\<lparr> player := (player s)\<lparr> p_health := max 0 (p_health (player s) - dmg) \<rparr> \<rparr>
      in if p_health (player s1) \<le> 0 then onPlayerDeath s1 else s1)"

definition getXPRequirement :: "real \<Rightarrow> real" where
  "getXPRequirement lvl = lvl * 100"

definition levelUp :: "world \<Rightarrow> world" where
  "levelUp s =
     showLevelUpScreen
       (s\<lparr> player := (player s)\<lparr> p_level := p_level (player s) + 1, p_xp := 0 \<rparr> \<rparr>)"

definition gainXP :: "real \<Rightarrow> world \<Rightarrow> world" where
  "gainXP amount s =
     (let s1 = s\<lparr> player := (player s)\<lparr> p_xp := p_xp (player s) + amount \<rparr> \<rparr>;
          xpRequired = getXPRequirement (p_level (player s1))
      in if p_xp (player s1) \<ge> xpRequired then levelUp s1 else s1)"

text \<open>
  \<open>attack\<close> pushes one projectile. \<open>handleAttack\<close> reads the clock once; \<open>now\<close> is the
  value \<open>Date.now()\<close> returned. The cooldown is \<open>1000 / attackSpeed\<close>, in JavaScript
  \<open>Infinity\<close> when \<open>attackSpeed\<close> is 0 (no difference of timestamps exceeds it), where
  HOL's division would give 0: \<open>exceedsCooldown\<close> writes that case out.
\<close>

definition attack :: "world \<Rightarrow> world" where
  "attack s =
     (let projectileSpeed = 300;
          projectile = \<lparr> pr_x = p_x (player s), pr_y = p_y (player s),
            pr_vx = cos (p_facing (player s)) * projectileSpeed,
            pr_vy = sin (p_facing (player s)) * projectileSpeed,
            pr_damage = p_damage (player s), pr_lifetime = 2000 \<rparr>
      in s\<lparr> projectiles := projectiles s @ [projectile] \<rparr>)"

definition exceedsCooldown :: "real \<Rightarrow> real \<Rightarrow> bool" where
  "exceedsCooldown elapsed attackSpeed =
     (if attackSpeed = 0 then False else elapsed > 1000 / attackSpeed)"

definition handleAttack :: "real \<Rightarrow> world \<Rightarrow> world" where
  "handleAttack now s =
     (if in_attack (currentInput s) then
        (if exceedsCooldown (now - p_lastAttackTime (player s)) (p_attackSpeed (player s))
         then (let s1 = attack s
               in s1\<lparr> player := (player s1)\<lparr> p_lastAttackTime := now \<rparr> \<rparr>)
         else s)
      else s)"

definition handleRegeneration :: "real \<Rightarrow> world \<Rightarrow> world" where
  "handleRegeneration now s =
     (if p_hasRegeneration (player s) \<and> p_health (player s) < p_maxHealth (player s) then
        (if now - p_lastRegenTime (player s) > 1000
         then s\<lparr> player := (player s)\<lparr>
                  p_health := min (p_maxHealth (player s)) (p_health (player s) + 2),
                  p_lastRegenTime := now \<rparr> \<rparr>
         else s)
      else s)"

definition upgradeMaxHealth :: "real \<Rightarrow> world \<Rightarrow> world" where
  "upgradeMaxHealth amount s =
     s\<lparr> player := (player s)\<lparr> p_maxHealth := p_maxHealth (player s) + amount,
                               p_health := p_health (player s) + amount \<rparr> \<rparr>"

definition upgradeDamage :: "real \<Rightarrow> world \<Rightarrow> world" where
  "upgradeDamage amount s =
     s\<lparr> player := (player s)\<lparr> p_damage := p_damage (player s) + amount \<rparr> \<rparr>"

definition upgradeSpeed :: "real \<Rightarrow> world \<Rightarrow> world" where
  "upgradeSpeed multiplier s =
     s\<lparr> player := (player s)\<lparr> p_speed := p_speed (player s) * (1 + multiplier) \<rparr> \<rparr>"

definition upgradeAttackSpeed :: "real \<Rightarrow> world \<Rightarrow> world" where
  "upgradeAttackSpeed multiplier s =
     s\<lparr> player := (player s)\<lparr> p_attackSpeed := p_attackSpeed (player s) * (1 + multiplier) \<rparr> \<rparr>"

definition enableRegeneration :: "real \<Rightarrow> world \<Rightarrow> world" where
  "enableRegeneration now s =
     s\<lparr> player := (player s)\<lparr> p_hasRegeneration := True, p_lastRegenTime := now \<rparr> \<rparr>"

text \<open>
  The catalog of generateLevelUpOptions: the five upgrades and the effect each one
  closes over. \<open>selectUpgrade\<close> runs the effect and returns to PLAYING.
\<close>

datatype LevelUpgrade = Up_health | Up_damage | Up_speed | Up_attack_speed | Up_regeneration

fun effect :: "LevelUpgrade \<Rightarrow> real \<Rightarrow> world \<Rightarrow> world" where
  "effect Up_health now s = upgradeMaxHealth 20 s"
| "effect Up_damage now s = upgradeDamage 5 s"
| "effect Up_speed now s = upgradeSpeed 0.1 s"
| "effect Up_attack_speed now s = upgradeAttackSpeed 0.2 s"
| "effect Up_regeneration now s = enableRegeneration now s"

definition selectUpgrade :: "LevelUpgrade \<Rightarrow> real \<Rightarrow> world \<Rightarrow> world" where
  "selectUpgrade upgrade now s = (effect upgrade now s)\<lparr> gameState := PLAYING \<rparr>"


section \<open>The environment: Math.random and Date.now\<close>

text \<open>
  The two sources of values from outside are streams, read one value per call:
  \<open>rnd\<close> gives the results of successive calls of \<open>Math.random()\<close> and \<open>clk\<close> those of
  \<open>Date.now()\<close>. A function that calls them in a loop takes the environment and returns
  what is left of it; a function that calls one of them once takes the value read.
  \<open>rnd_ok\<close> is the contract of \<open>Math.random()\<close>: every value lies in [0, 1).
\<close>

record env =
  rnd :: "nat \<Rightarrow> real"
  clk :: "nat \<Rightarrow> real"

definition Math_random :: "env \<Rightarrow> real \<times> env" where
  "Math_random e = (rnd e 0, e\<lparr> rnd := (\<lambda>i. rnd e (Suc i)) \<rparr>)"

definition Date_now :: "env \<Rightarrow> real \<times> env" where
  "Date_now e = (clk e 0, e\<lparr> clk := (\<lambda>i. clk e (Suc i)) \<rparr>)"

definition rnd_ok :: "env \<Rightarrow> bool" where
  "rnd_ok e = (\<forall>i. 0 \<le> rnd e i \<and> rnd e i < 1)"

section \<open>The tile grid of GameEngineService\<close>

definition levelWidth :: int where "levelWidth = 50"
definition levelHeight :: int where "levelHeight = 50"
definition tileSize :: real where "tileSize = 32"

text \<open>
  Reading \<open>tiles[y][x]\<close>: \<open>None\<close> when the row or the cell does not exist, where the
  source reads \<open>undefined\<close> and then throws a TypeError on the property access that
  follows every such read. Writing \<open>tiles[y][x] = t\<close>: \<open>None\<close> when the cell does not
  exist, where the source throws (no such row) or changes the shape of the row.
\<close>

definition tile_at :: "Tile list list \<Rightarrow> int \<Rightarrow> int \<Rightarrow> Tile option" where
  "tile_at g y x =
     (if 0 \<le> y \<and> y < int (length g) then
        (if 0 \<le> x \<and> x < int (length (g ! nat y)) then Some (g ! nat y ! nat x) else None)
      else None)"

definition set_tile :: "Tile list list \<Rightarrow> int \<Rightarrow> int \<Rightarrow> Tile \<Rightarrow> Tile list list option" where
  "set_tile g y x t =
     (if 0 \<le> y \<and> y < int (length g) \<and> 0 \<le> x \<and> x < int (length (g ! nat y))
      then Some (g[nat y := (g ! nat y)[nat x := t]]) else None)"

definition isWalkable :: "real \<Rightarrow> real \<Rightarrow> world \<Rightarrow> bool option" where
  "isWalkable x y s =
     (let tileX = \<lfloor>x / tileSize\<rfloor>; tileY = \<lfloor>y / tileSize\<rfloor>
      in if tileX < 0 \<or> tileX \<ge> levelWidth \<or> tileY < 0 \<or> tileY \<ge> levelHeight
         then Some False
         else map_option walkable (tile_at (tiles s) tileY tileX))"


definition floorTile :: "int \<Rightarrow> int \<Rightarrow> Tile" where
  "floorTile x y = \<lparr> t_x = x, t_y = y, t_type = Floor, walkable = True \<rparr>"








text \<open>
  placeEntranceAndExit. \<open>rowMajor\<close> is the order in which its two loops visit the cells,
  as pairs \<open>(y, x)\<close>; \<open>collectFloorTiles\<close> is the loop that fills \<open>floorTiles\<close>.
\<close>

definition rowMajor :: "(int \<times> int) list" where
  "rowMajor = List.product [0..levelHeight - 1] [0..levelWidth - 1]"

fun collectFloorTiles :: "Tile list list \<Rightarrow> (int \<times> int) list \<Rightarrow> (int \<times> int) list option" where
  "collectFloorTiles g [] = Some []"
| "collectFloorTiles g ((y, x) # cs) =
     (case tile_at g y x of
        None \<Rightarrow> None
      | Some t \<Rightarrow>
          (case collectFloorTiles g cs of
             None \<Rightarrow> None
           | Some rest \<Rightarrow> Some (if walkable t then (y, x) # rest else rest)))"

definition set_type :: "Tile list list \<Rightarrow> int \<Rightarrow> int \<Rightarrow> TileType \<Rightarrow> Tile list list option" where
  "set_type g y x ty =
     (case tile_at g y x of None \<Rightarrow> None | Some t \<Rightarrow> set_tile g y x (t\<lparr> t_type := ty \<rparr>))"

definition placeEntranceAndExit :: "world \<Rightarrow> world option" where
  "placeEntranceAndExit s =
     (case collectFloorTiles (tiles s) rowMajor of
        None \<Rightarrow> None
      | Some floorTiles \<Rightarrow>
          if length floorTiles \<ge> 2 then
            (let (entranceY, entranceX) = hd floorTiles;
                 (exitY, exitX) = last floorTiles
             in case set_type (tiles s) entranceY entranceX Entrance of
                  None \<Rightarrow> None
                | Some g1 \<Rightarrow>
                    (case set_type g1 exitY exitX Exit of
                       None \<Rightarrow> None
                     | Some g2 \<Rightarrow>
                         Some (setPosition
                                 (real_of_int entranceX * tileSize + tileSize / 2)
                                 (real_of_int entranceY * tileSize + tileSize / 2)
                                 (s\<lparr> tiles := g2 \<rparr>))))
          else Some s)"



section \<open>EnemyService\<close>

text \<open>The \<open>baseStats\<close> object that the switch of createEnemy builds.\<close>

record BaseStats =
  b_health :: real
  b_damage :: real
  b_speed :: real
  b_attackCooldown :: real
  b_radius :: real
  b_xpValue :: real

fun baseStats :: "EnemyType \<Rightarrow> real \<Rightarrow> real \<Rightarrow> BaseStats" where
  "baseStats Melee healthMultiplier damageMultiplier =
     \<lparr> b_health = 30 * healthMultiplier, b_damage = 15 * damageMultiplier, b_speed = 80,
       b_attackCooldown = 1500, b_radius = 16, b_xpValue = 10 \<rparr>"
| "baseStats Ranged healthMultiplier damageMultiplier =
     \<lparr> b_health = 20 * healthMultiplier, b_damage = 12 * damageMultiplier, b_speed = 60,
       b_attackCooldown = 2000, b_radius = 14, b_xpValue = 15 \<rparr>"
| "baseStats Fast healthMultiplier damageMultiplier =
     \<lparr> b_health = 15 * healthMultiplier, b_damage = 8 * damageMultiplier, b_speed = 120,
       b_attackCooldown = 800, b_radius = 12, b_xpValue = 12 \<rparr>"
| "baseStats Boss healthMultiplier damageMultiplier =
     \<lparr> b_health = 200 * healthMultiplier, b_damage = 25 * damageMultiplier, b_speed = 40,
       b_attackCooldown = 1000, b_radius = 32, b_xpValue = 100 \<rparr>"

text \<open>
  createEnemy: \<open>r\<close> is the value of its call of \<open>Math.random()\<close> and \<open>now\<close> that of its
  call of \<open>Date.now()\<close>. The new object is stored under the reference \<open>nextEnemyId\<close>,
  which is returned.
\<close>

definition createEnemy ::
  "EnemyType \<Rightarrow> real \<Rightarrow> real \<Rightarrow> int \<Rightarrow> real \<Rightarrow> real \<Rightarrow> world \<Rightarrow> nat \<times> world" where
  "createEnemy type x y flr r now s =
     (let id = nextEnemyId s;
          healthMultiplier = 1 + (real_of_int flr - 1) * 0.3;
          damageMultiplier = 1 + (real_of_int flr - 1) * 0.2;
          stats = baseStats type healthMultiplier damageMultiplier;
          enemy = \<lparr> e_x = x, e_y = y, e_radius = b_radius stats, e_health = b_health stats,
            e_maxHealth = b_health stats, e_damage = b_damage stats, e_speed = b_speed stats,
            e_type = type, e_attackCooldown = b_attackCooldown stats, e_lastAttackTime = 0,
            e_targetX = x, e_targetY = y, e_isAttacking = False,
            e_patrolDirection = r * pi * 2, e_lastDirectionChange = now,
            e_xpValue = b_xpValue stats \<rparr>
      in (id, s\<lparr> nextEnemyId := id + 1, enemyObjs := (enemyObjs s)(id \<mapsto> enemy) \<rparr>))"

text \<open>Reading \<open>xs[i]\<close>: \<open>None\<close> is \<open>undefined\<close>.\<close>

definition js_nth :: "'a list \<Rightarrow> int \<Rightarrow> 'a option" where
  "js_nth xs i = (if 0 \<le> i \<and> i < int (length xs) then Some (xs ! nat i) else None)"

text \<open>
  The do-while loop of spawnRandomEnemy that looks for a walkable position; it returns
  the last position tried and the number of attempts.
\<close>

function pickPosition :: "nat \<Rightarrow> env \<Rightarrow> world \<Rightarrow> (real \<times> real \<times> nat \<times> env) option" where
  "pickPosition attempts e s =
     (let (r1, e1) = Math_random e; x = r1 * 1600;
          (r2, e2) = Math_random e1; y = r2 * 1600;
          attempts' = attempts + 1
      in case isWalkable x y s of
           None \<Rightarrow> None
         | Some w \<Rightarrow>
             if \<not> w \<and> attempts' < 50 then pickPosition attempts' e2 s
             else Some (x, y, attempts', e2))"
  by pat_completeness auto
termination
  by (relation "measure (\<lambda>(attempts, e, s). 50 - attempts)") (auto simp: Math_random_def)

declare pickPosition.simps [simp del]

text \<open>
  spawnRandomEnemy. When the index falls outside \<open>enemyTypes\<close> the type is \<open>undefined\<close>,
  the switch of createEnemy matches no case and \<open>baseStats.health\<close> throws: \<open>None\<close>.
\<close>

definition spawnRandomEnemy :: "int \<Rightarrow> env \<Rightarrow> world \<Rightarrow> (world \<times> env) option" where
  "spawnRandomEnemy flr e s =
     (let enemyTypes = [Melee, Ranged, Fast];
          (r, e1) = Math_random e;
          type = js_nth enemyTypes \<lfloor>r * real (length enemyTypes)\<rfloor>
      in case pickPosition 0 e1 s of
           None \<Rightarrow> None
         | Some (x0, y0, attempts, e2) \<Rightarrow>
             (let (x, y) = (if attempts \<ge> 50 then (800, 800) else (x0, y0))
              in case type of
                   None \<Rightarrow> None
                 | Some ty \<Rightarrow>
                     (let (r', e3) = Math_random e2;
                          (now, e4) = Date_now e3;
                          (enemy, s1) = createEnemy ty x y flr r' now s
                      in Some (s1\<lparr> enemies := enemies s1 @ [enemy] \<rparr>, e4))))"

fun spawnLoop :: "nat \<Rightarrow> int \<Rightarrow> env \<Rightarrow> world \<Rightarrow> (world \<times> env) option" where
  "spawnLoop 0 flr e s = Some (s, e)"
| "spawnLoop (Suc n) flr e s =
     (case spawnRandomEnemy flr e s of None \<Rightarrow> None | Some (s', e') \<Rightarrow> spawnLoop n flr e' s')"

definition spawnEnemiesForFloor :: "int \<Rightarrow> env \<Rightarrow> world \<Rightarrow> (world \<times> env) option" where
  "spawnEnemiesForFloor flr e s =
     (let s0 = s\<lparr> enemies := [], enemyProjectiles := [] \<rparr>;
          baseEnemyCount = 3 + flr div 2;
          enemyCount = min baseEnemyCount 15
      in spawnLoop (nat enemyCount) flr e s0)"



text \<open>
  \<open>Math.atan2\<close> on the reals (the two zeros of a double are one number here).
\<close>

definition Math_atan2 :: "real \<Rightarrow> real \<Rightarrow> real" where
  "Math_atan2 y x =
     (if x > 0 then arctan (y / x)
      else if x < 0 then (if y \<ge> 0 then arctan (y / x) + pi else arctan (y / x) - pi)
      else if y > 0 then pi / 2
      else if y < 0 then - pi / 2
      else 0)"

text \<open>
  The functions below take the reference of an enemy object. Every reference the source
  holds points to an object; for a number that is no reference they leave the state as
  it is.
\<close>

definition createEnemyProjectile :: "nat \<Rightarrow> real \<Rightarrow> world \<Rightarrow> world" where
  "createEnemyProjectile ref angleOffset s =
     (case enemyObjs s ref of
        None \<Rightarrow> s
      | Some enemy \<Rightarrow>
          (let dx = p_x (player s) - e_x enemy;
               dy = p_y (player s) - e_y enemy;
               angle = Math_atan2 dy dx + angleOffset;
               speed = 150;
               projectile = \<lparr> pr_x = e_x enemy, pr_y = e_y enemy,
                 pr_vx = cos angle * speed, pr_vy = sin angle * speed,
                 pr_damage = e_damage enemy, pr_lifetime = 3000 \<rparr>
           in s\<lparr> enemyProjectiles := enemyProjectiles s @ [projectile] \<rparr>))"

definition updateEnemyAttack :: "nat \<Rightarrow> real \<Rightarrow> world \<Rightarrow> world" where
  "updateEnemyAttack ref now s =
     (case enemyObjs s ref of
        None \<Rightarrow> s
      | Some enemy \<Rightarrow>
          if \<not> e_isAttacking enemy then s
          else if now - e_lastAttackTime enemy < e_attackCooldown enemy then s
          else
            (let s1 = s\<lparr> enemyObjs := (enemyObjs s)(ref \<mapsto> enemy\<lparr> e_lastAttackTime := now \<rparr>) \<rparr>;
                 dx = p_x (player s1) - e_x enemy;
                 dy = p_y (player s1) - e_y enemy;
                 distance = sqrt (dx * dx + dy * dy)
             in if e_type enemy = Melee \<or> e_type enemy = Fast then
                  (if distance < 40 then takeDamage (e_damage enemy) s1 else s1)
                else if e_type enemy = Ranged \<or> e_type enemy = Boss then
                  (let s2 = createEnemyProjectile ref 0 s1
                   in if e_type enemy = Boss
                      then createEnemyProjectile ref 0.3 (createEnemyProjectile ref (- 0.3) s2)
                      else s2)
                else s1))"

definition onEnemyKilled :: "world \<Rightarrow> world" where
  "onEnemyKilled s = s\<lparr> enemiesKilled := enemiesKilled s + 1 \<rparr>"

text \<open>
  killEnemy: \<open>findIndex\<close> looks for the first entry of the array with the id of the
  object and \<open>splice\<close> removes it, if there is one: \<open>remove1\<close>.
\<close>

definition killEnemy :: "nat \<Rightarrow> world \<Rightarrow> world" where
  "killEnemy ref s =
     (case enemyObjs s ref of
        None \<Rightarrow> s
      | Some enemy \<Rightarrow>
          (let s1 = gainXP (e_xpValue enemy) s;
               s2 = s1\<lparr> enemies := remove1 ref (enemies s1) \<rparr>
           in onEnemyKilled s2))"

definition damageEnemy :: "nat \<Rightarrow> real \<Rightarrow> world \<Rightarrow> world" where
  "damageEnemy ref dmg s =
     (case enemyObjs s ref of
        None \<Rightarrow> s
      | Some enemy \<Rightarrow>
          (let s1 = s\<lparr> enemyObjs :=
                        (enemyObjs s)(ref \<mapsto> enemy\<lparr> e_health := e_health enemy - dmg \<rparr>) \<rparr>
           in if e_health enemy - dmg \<le> 0 then killEnemy ref s1 else s1))"

text \<open>
  The last loop of checkProjectileCollisions: \<open>hits.forEach\<close>, each hit a reference to
  an enemy and the damage of the projectile that hit it.
\<close>

fun applyHits :: "(nat \<times> real) list \<Rightarrow> world \<Rightarrow> world" where
  "applyHits [] s = s"
| "applyHits ((ref, dmg) # hits) s = applyHits hits (damageEnemy ref dmg s)"

section \<open>GameEngineService: floor progression\<close>




section \<open>Predicates and tables used to state the properties\<close>

text \<open>A grid of the shape generateLevel builds: 50 rows of 50 cells.\<close>

definition grid_ok :: "Tile list list \<Rightarrow> bool" where
  "grid_ok g = (int (length g) = levelHeight \<and> (\<forall>row \<in> set g. int (length row) = levelWidth))"

definition in_grid :: "int \<Rightarrow> int \<Rightarrow> bool" where
  "in_grid y x = (0 \<le> y \<and> y < levelHeight \<and> 0 \<le> x \<and> x < levelWidth)"

text \<open>The cell \<open>(y, x)\<close> of a grid, for \<open>in_grid y x\<close> on a grid with \<open>grid_ok\<close>.\<close>

definition cell :: "Tile list list \<Rightarrow> int \<times> int \<Rightarrow> Tile" where
  "cell g c = g ! nat (fst c) ! nat (snd c)"

text \<open>A grid as it is before placeEntranceAndExit: walls and floor cells only.\<close>

definition unplaced :: "Tile list list \<Rightarrow> bool" where
  "unplaced g =
     (\<forall>y x. in_grid y x \<longrightarrow> t_type (cell g (y, x)) = Wall \<or> t_type (cell g (y, x)) = Floor)"

text \<open>The walkable cells of a grid, as pairs \<open>(y, x)\<close> in row-major order.\<close>

definition walkableCells :: "Tile list list \<Rightarrow> (int \<times> int) list" where
  "walkableCells g = filter (\<lambda>c. walkable (cell g c)) rowMajor"


text \<open>
  Row-major order on cells \<open>(y, x)\<close>: an earlier row, or the same row and an earlier
  column.
\<close>

definition rowBefore :: "int \<times> int \<Rightarrow> int \<times> int \<Rightarrow> bool" where
  "rowBefore c c' = (fst c < fst c' \<or> (fst c = fst c' \<and> snd c < snd c'))"





text \<open>The type of the enemy a reference points to.\<close>

definition typeOf :: "world \<Rightarrow> nat \<Rightarrow> EnemyType option" where
  "typeOf s ref = map_option e_type (enemyObjs s ref)"

text \<open>
  The per-type table of section 4.3 of the specification: health, damage, speed,
  attack cooldown, radius.
\<close>

fun tab_health :: "EnemyType \<Rightarrow> real" where
  "tab_health Melee = 30" | "tab_health Ranged = 20" | "tab_health Fast = 15" | "tab_health Boss = 200"

fun tab_damage :: "EnemyType \<Rightarrow> real" where
  "tab_damage Melee = 15" | "tab_damage Ranged = 12" | "tab_damage Fast = 8" | "tab_damage Boss = 25"

fun tab_speed :: "EnemyType \<Rightarrow> real" where
  "tab_speed Melee = 80" | "tab_speed Ranged = 60" | "tab_speed Fast = 120" | "tab_speed Boss = 40"

fun tab_cooldown :: "EnemyType \<Rightarrow> real" where
  "tab_cooldown Melee = 1500" | "tab_cooldown Ranged = 2000" | "tab_cooldown Fast = 800"
| "tab_cooldown Boss = 1000"

fun tab_radius :: "EnemyType \<Rightarrow> real" where
  "tab_radius Melee = 16" | "tab_radius Ranged = 14" | "tab_radius Fast = 12" | "tab_radius Boss = 32"

text \<open>
  The calls of handleAttack made by successive frames, at the clock readings \<open>ts\<close>, with
  nothing else writing the player or the input in between.
\<close>

fun holdAttack :: "real list \<Rightarrow> world \<Rightarrow> world" where
  "holdAttack [] s = s"
| "holdAttack (t # ts) s = holdAttack ts (handleAttack t s)"

text \<open>
  The calls that can change the player's health or its bound: takeDamage, the
  regeneration tick of a frame, the four upgrade methods and enableRegeneration called
  with any argument, and the choice of an upgrade of the catalog; each with the clock
  reading it makes where it makes one.
\<close>

datatype PlayerCall =
    TakeDamage real
  | RegenTick real
  | UpgradeMaxHealth real
  | UpgradeDamage real
  | UpgradeSpeed real
  | UpgradeAttackSpeed real
  | EnableRegeneration real
  | SelectUpgrade LevelUpgrade real

fun call :: "PlayerCall \<Rightarrow> world \<Rightarrow> world" where
  "call (TakeDamage amount) s = takeDamage amount s"
| "call (RegenTick now) s = handleRegeneration now s"
| "call (UpgradeMaxHealth amount) s = upgradeMaxHealth amount s"
| "call (UpgradeDamage amount) s = upgradeDamage amount s"
| "call (UpgradeSpeed multiplier) s = upgradeSpeed multiplier s"
| "call (UpgradeAttackSpeed multiplier) s = upgradeAttackSpeed multiplier s"
| "call (EnableRegeneration now) s = enableRegeneration now s"
| "call (SelectUpgrade upgrade now) s = selectUpgrade upgrade now s"

fun calls :: "PlayerCall list \<Rightarrow> world \<Rightarrow> world" where
  "calls [] s = s"
| "calls (c # cs) s = calls cs (call c s)"

text \<open>
  The amount of takeDamage and of upgradeMaxHealth is not negative; the other calls are
  not restricted.
\<close>

fun nonneg_call :: "PlayerCall \<Rightarrow> bool" where
  "nonneg_call (TakeDamage amount) = (0 \<le> amount)"
| "nonneg_call (UpgradeMaxHealth amount) = (0 \<le> amount)"
| "nonneg_call _ = True"

definition player_health_ok :: "world \<Rightarrow> bool" where
  "player_health_ok s =
     (0 \<le> p_health (player s) \<and> p_health (player s) \<le> p_maxHealth (player s))"

text \<open>
  Every enemy of the live collection has its health within \<open>[0, maxHealth]\<close>; the
  collection holds no reference twice.
\<close>

definition enemies_health_ok :: "world \<Rightarrow> bool" where
  "enemies_health_ok s =
     (distinct (enemies s) \<and>
      (\<forall>ref \<in> set (enemies s). \<forall>enemy. enemyObjs s ref = Some enemy \<longrightarrow>
         0 \<le> e_health enemy \<and> e_health enemy \<le> e_maxHealth enemy))"

text \<open>The projectile an enemy fires at a given angle.\<close>

definition shot :: "Enemy \<Rightarrow> real \<Rightarrow> Projectile" where
  "shot enemy angle =
     \<lparr> pr_x = e_x enemy, pr_y = e_y enemy, pr_vx = cos angle * 150, pr_vy = sin angle * 150,
       pr_damage = e_damage enemy, pr_lifetime = 3000 \<rparr>"


text \<open>
  The timestamps \<open>ts\<close> lie in one cooldown window of a player with the given attack
  speed: no two of them are more than \<open>1000 / attackSpeed\<close> apart (with attack speed 0
  the window has no end).
\<close>

definition one_window :: "real list \<Rightarrow> real \<Rightarrow> bool" where
  "one_window ts attackSpeed =
     (attackSpeed = 0 \<or> (\<forall>t \<in> set ts. \<forall>t' \<in> set ts. t' - t \<le> 1000 / attackSpeed))"

text \<open>The distance from an enemy to the player and the direction of the player from it.\<close>

definition distanceTo :: "Enemy \<Rightarrow> Player \<Rightarrow> real" where
  "distanceTo enemy p =
     sqrt ((p_x p - e_x enemy) * (p_x p - e_x enemy) + (p_y p - e_y enemy) * (p_y p - e_y enemy))"

definition aim :: "Enemy \<Rightarrow> Player \<Rightarrow> real" where
  "aim enemy p = Math_atan2 (p_y p - e_y enemy) (p_x p - e_x enemy)"

text \<open>
  The calls of updateEnemyAttack for one enemy made by successive frames, at the clock
  readings \<open>ts\<close>, with nothing else writing the enemy in between.
\<close>

fun updateEnemyAttacks :: "nat \<Rightarrow> real list \<Rightarrow> world \<Rightarrow> world" where
  "updateEnemyAttacks ref [] s = s"
| "updateEnemyAttacks ref (t # ts) s = updateEnemyAttacks ref ts (updateEnemyAttack ref t s)"

text \<open>The number of projectiles one attack of an enemy of a type fires.\<close>

fun shotsPerAttack :: "EnemyType \<Rightarrow> nat" where
  "shotsPerAttack Melee = 0"
| "shotsPerAttack Fast = 0"
| "shotsPerAttack Ranged = 1"
| "shotsPerAttack Boss = 3"

section \<open>Sample states\<close>

text \<open>The state the field initialisers of the three services give.\<close>

definition initialWorld :: world where
  "initialWorld =
     \<lparr> player = defaultPlayer, projectiles = [],
       currentInput = \<lparr> in_up = False, in_down = False, in_left = False, in_right = False,
                        in_attack = False, in_mouseX = 0, in_mouseY = 0 \<rparr>,
       enemies = [], enemyObjs = Map.empty, enemyProjectiles = [], nextEnemyId = 0,
       gameState = MENU, currentFloor = 1, enemiesKilled = 0, tiles = [] \<rparr>"

text \<open>
  A game in progress on floor 5 with one enemy of the given type at \<open>(0, 300)\<close>, about
  to attack, and the attack input held.
\<close>

definition duel :: "EnemyType \<Rightarrow> world" where
  "duel ty =
     (let (ref, s) = createEnemy ty 0 300 5 0 0 (initialWorld\<lparr> gameState := PLAYING, currentFloor := 5 \<rparr>)
      in s\<lparr> enemies := [ref],
            enemyObjs := (enemyObjs s)(ref := map_option (\<lambda>e. e\<lparr> e_isAttacking := True \<rparr>) (enemyObjs s ref)),
            currentInput := (currentInput s)\<lparr> in_attack := True \<rparr> \<rparr>)"


text \<open>A grid of the shape generateLevel builds, with one room: the cells 1 to 4 of rows 1 to 4.\<close>

definition sampleGrid :: "Tile list list" where
  "sampleGrid =
     map (\<lambda>y. map (\<lambda>x. if 1 \<le> x \<and> x \<le> 4 \<and> 1 \<le> y \<and> y \<le> 4 then floorTile x y
                         else \<lparr> t_x = x, t_y = y, t_type = Wall, walkable = False \<rparr>)
                  [0..levelWidth - 1])
         [0..levelHeight - 1]"

text \<open>The initial state with that grid as the level, before entrance and exit are placed.\<close>

definition sampleLevel :: world where
  "sampleLevel = initialWorld\<lparr> tiles := sampleGrid \<rparr>"

text \<open>An environment whose random numbers are all 1/2 and whose clock stands at 0.\<close>

definition halfEnv :: env where
  "halfEnv = \<lparr> rnd = (\<lambda>i. 1 / 2), clk = (\<lambda>i. 0) \<rparr>"

text \<open>The grid with one room after placement: entrance at (1, 1), exit at (4, 4).\<close>

definition placedGrid :: "Tile list list" where
  "placedGrid =
     map (\<lambda>y. map (\<lambda>x. if 1 \<le> x \<and> x \<le> 4 \<and> 1 \<le> y \<and> y \<le> 4
                         then \<lparr> t_x = x, t_y = y,
                                t_type = (if x = 1 \<and> y = 1 then Entrance
                                          else if x = 4 \<and> y = 4 then Exit else Floor),
                                walkable = True \<rparr>
                         else \<lparr> t_x = x, t_y = y, t_type = Wall, walkable = False \<rparr>)
                  [0..levelWidth - 1])
         [0..levelHeight - 1]"

text \<open>A game in progress on that grid on the given floor, the player on the exit cell, no enemy left.\<close>

definition sampleFloor :: "int \<Rightarrow> world" where
  "sampleFloor flr =
     initialWorld\<lparr> tiles := placedGrid, gameState := PLAYING, currentFloor := flr,
                    player := defaultPlayer\<lparr> p_x := 144, p_y := 144 \<rparr> \<rparr>"

section \<open>Player: reset, experience, attack\<close>

text \<open>
  C9. resetPlayer is idempotent: twice gives the state once gives, whatever the state
  before, and that state has the default player (position (400, 300), health 100 of 100,
  level 1, no xp, damage 10, speed 150, attack speed 1, no regeneration) and no
  projectile.
\<close>

theorem resetPlayer_idempotent:
  "resetPlayer (resetPlayer s) = resetPlayer s \<and>
   projectiles (resetPlayer s) = [] \<and>
   player (resetPlayer s) = \<lparr> p_x = 400, p_y = 300, p_width = 24, p_height = 24,
     p_health = 100, p_maxHealth = 100, p_xp = 0, p_level = 1, p_damage = 10,
     p_speed = 150, p_attackSpeed = 1, p_lastAttackTime = 0, p_facing = 0,
     p_hasRegeneration = False, p_lastRegenTime = 0 \<rparr>"
  by (simp add: resetPlayer_def defaultPlayer_def)

text \<open>
  C2. gainXP adds the amount to the xp; when the sum reaches \<open>level * 100\<close> the level
  goes up by exactly one and the xp is set to 0 (the level-up screen is shown), however
  large the amount; otherwise the sum is the new xp. Nothing else changes.
\<close>

theorem gainXP_single_level_up:
  "gainXP amount s =
     (if p_xp (player s) + amount \<ge> p_level (player s) * 100
      then s\<lparr> player := (player s)\<lparr> p_xp := 0, p_level := p_level (player s) + 1 \<rparr>,
              gameState := LEVEL_UP \<rparr>
      else s\<lparr> player := (player s)\<lparr> p_xp := p_xp (player s) + amount \<rparr> \<rparr>)"
  by (simp add: gainXP_def levelUp_def showLevelUpScreen_def getXPRequirement_def Let_def)

text \<open>At level 1, 1000 xp at once give level 2 and no more; 99 xp give none.\<close>

theorem gainXP_single_level_up_witness:
  "p_level (player (gainXP 1000 initialWorld)) = 2 \<and>
   p_xp (player (gainXP 1000 initialWorld)) = 0 \<and>
   gameState (gainXP 1000 initialWorld) = LEVEL_UP \<and>
   p_level (player (gainXP 99 initialWorld)) = 1 \<and>
   p_xp (player (gainXP 99 initialWorld)) = 99"
  using gainXP_single_level_up [of 1000 initialWorld] gainXP_single_level_up [of 99 initialWorld]
  by (simp add: initialWorld_def defaultPlayer_def)

lemma handleAttack_idle:
  "\<not> exceedsCooldown (t - p_lastAttackTime (player s)) (p_attackSpeed (player s))
   \<Longrightarrow> handleAttack t s = s"
  by (simp add: handleAttack_def)

lemma holdAttack_idle:
  "\<forall>t \<in> set ts. \<not> exceedsCooldown (t - p_lastAttackTime (player s)) (p_attackSpeed (player s))
   \<Longrightarrow> holdAttack ts s = s"
  by (induction ts) (simp_all add: handleAttack_idle)

lemma handleAttack_fire:
  assumes "in_attack (currentInput s)"
    and "exceedsCooldown (now - p_lastAttackTime (player s)) (p_attackSpeed (player s))"
  shows "handleAttack now s =
     s\<lparr> projectiles := projectiles s @
          [\<lparr> pr_x = p_x (player s), pr_y = p_y (player s),
             pr_vx = cos (p_facing (player s)) * 300, pr_vy = sin (p_facing (player s)) * 300,
             pr_damage = p_damage (player s), pr_lifetime = 2000 \<rparr>],
        player := (player s)\<lparr> p_lastAttackTime := now \<rparr> \<rparr>"
  using assms by (simp add: handleAttack_def attack_def Let_def)

lemma speed_300: "sqrt ((cos a * 300)\<^sup>2 + (sin a * 300)\<^sup>2) = 300"
proof -
  have "(cos a * 300)\<^sup>2 + (sin a * 300)\<^sup>2 = ((sin a)\<^sup>2 + (cos a)\<^sup>2) * 300\<^sup>2"
    unfolding power_mult_distrib by (simp only: distrib_right add.commute)
  also have "\<dots> = 300\<^sup>2" by (simp only: sin_cos_squared_add mult_1)
  finally have "sqrt ((cos a * 300)\<^sup>2 + (sin a * 300)\<^sup>2) = sqrt (300\<^sup>2)" by (rule arg_cong)
  then show ?thesis by simp
qed

lemma holdAttack_window:
  assumes "one_window ts (p_attackSpeed (player s))"
  shows "length (projectiles (holdAttack ts s)) \<le> length (projectiles s) + 1"
  using assms
proof (induction ts arbitrary: s)
  case Nil
  then show ?case by simp
next
  case (Cons t ts)
  let ?A = "p_attackSpeed (player s)"
  have tail: "one_window ts ?A"
    using Cons.prems by (auto simp: one_window_def)
  show ?case
  proof (cases "in_attack (currentInput s) \<and> exceedsCooldown (t - p_lastAttackTime (player s)) ?A")
    case False
    then have "handleAttack t s = s" by (auto simp: handleAttack_def)
    then show ?thesis using Cons.IH[OF tail] by simp
  next
    case True
    let ?s1 = "handleAttack t s"
    note eq = handleAttack_fire[of s t] True
    have A: "p_attackSpeed (player ?s1) = ?A" and L: "p_lastAttackTime (player ?s1) = t"
      and P: "length (projectiles ?s1) = length (projectiles s) + 1"
      using eq by simp_all
    have "?A \<noteq> 0" using True by (auto simp: exceedsCooldown_def)
    then have "\<forall>t' \<in> set ts. t' - t \<le> 1000 / ?A"
      using Cons.prems by (auto simp: one_window_def)
    then have "\<forall>t' \<in> set ts. \<not> exceedsCooldown (t' - p_lastAttackTime (player ?s1)) (p_attackSpeed (player ?s1))"
      by (auto simp: A L exceedsCooldown_def)
    then have "holdAttack ts ?s1 = ?s1" by (rule holdAttack_idle)
    then show ?thesis using P by simp
  qed
qed

text \<open>
  C6. With the attack input held: a call of handleAttack at clock reading \<open>now\<close> fires
  when more than \<open>1000 / attackSpeed\<close> ms have passed since the last shot and does
  nothing otherwise; a shot appends exactly one projectile, at the player's position,
  with velocity \<open>300 * (cos facing, sin facing)\<close> (so of magnitude 300), the player's
  damage and a lifetime of 2000 ms, and records \<open>now\<close> as the time of the last shot;
  and the calls of any number of frames whose clock readings lie in one cooldown window
  fire at most once between them.
\<close>

theorem handleAttack_once_per_window:
  assumes "in_attack (currentInput s)"
  shows "(exceedsCooldown (now - p_lastAttackTime (player s)) (p_attackSpeed (player s)) \<longrightarrow>
            (\<exists>p. projectiles (handleAttack now s) = projectiles s @ [p] \<and>
                 pr_x p = p_x (player s) \<and> pr_y p = p_y (player s) \<and>
                 pr_vx p = cos (p_facing (player s)) * 300 \<and>
                 pr_vy p = sin (p_facing (player s)) * 300 \<and>
                 sqrt ((pr_vx p)\<^sup>2 + (pr_vy p)\<^sup>2) = 300 \<and>
                 pr_damage p = p_damage (player s) \<and> pr_lifetime p = 2000) \<and>
            p_lastAttackTime (player (handleAttack now s)) = now) \<and>
         (\<not> exceedsCooldown (now - p_lastAttackTime (player s)) (p_attackSpeed (player s)) \<longrightarrow>
            handleAttack now s = s) \<and>
         (one_window ts (p_attackSpeed (player s)) \<longrightarrow>
            length (projectiles (holdAttack ts s)) \<le> length (projectiles s) + 1)"
proof (intro conjI impI)
  assume c: "exceedsCooldown (now - p_lastAttackTime (player s)) (p_attackSpeed (player s))"
  note eq = handleAttack_fire[OF assms c]
  show "\<exists>p. projectiles (handleAttack now s) = projectiles s @ [p] \<and>
                 pr_x p = p_x (player s) \<and> pr_y p = p_y (player s) \<and>
                 pr_vx p = cos (p_facing (player s)) * 300 \<and>
                 pr_vy p = sin (p_facing (player s)) * 300 \<and>
                 sqrt ((pr_vx p)\<^sup>2 + (pr_vy p)\<^sup>2) = 300 \<and>
                 pr_damage p = p_damage (player s) \<and> pr_lifetime p = 2000"
    unfolding eq using speed_300[of "p_facing (player s)"] by simp
  show "p_lastAttackTime (player (handleAttack now s)) = now"
    unfolding eq by simp
next
  assume "\<not> exceedsCooldown (now - p_lastAttackTime (player s)) (p_attackSpeed (player s))"
  then show "handleAttack now s = s" by (rule handleAttack_idle)
next
  assume "one_window ts (p_attackSpeed (player s))"
  then show "length (projectiles (holdAttack ts s)) \<le> length (projectiles s) + 1"
    by (rule holdAttack_window)
qed


lemma duel_simps:
  "enemies (duel ty) = [0]" "player (duel ty) = defaultPlayer" "projectiles (duel ty) = []"
  "enemyProjectiles (duel ty) = []" "in_attack (currentInput (duel ty))"
  "enemyObjs (duel ty) 0 = Some \<lparr> e_x = 0, e_y = 300, e_radius = tab_radius ty,
      e_health = tab_health ty * 2.2, e_maxHealth = tab_health ty * 2.2,
      e_damage = tab_damage ty * 1.8, e_speed = tab_speed ty, e_type = ty,
      e_attackCooldown = tab_cooldown ty, e_lastAttackTime = 0,
      e_targetX = 0, e_targetY = 300, e_isAttacking = True, e_patrolDirection = 0,
      e_lastDirectionChange = 0,
      e_xpValue = (case ty of Melee \<Rightarrow> 10 | Ranged \<Rightarrow> 15 | Fast \<Rightarrow> 12 | Boss \<Rightarrow> 100) \<rparr>"
  by (cases ty; simp add: duel_def createEnemy_def initialWorld_def Let_def)+

text \<open>
  A player who has just been reset holds the attack input during frames at 5000, 5016,
  5600 and 6000 ms: the first fires, the others fall in its window.
\<close>

theorem handleAttack_once_per_window_witness:
  "in_attack (currentInput (duel Melee)) \<and>
   exceedsCooldown (5000 - p_lastAttackTime (player (duel Melee))) (p_attackSpeed (player (duel Melee))) \<and>
   (\<exists>p. projectiles (handleAttack 5000 (duel Melee)) = projectiles (duel Melee) @ [p] \<and>
        pr_x p = 400 \<and> pr_y p = 300 \<and> pr_vx p = 300 \<and> pr_vy p = 0 \<and>
        pr_damage p = 10 \<and> pr_lifetime p = 2000) \<and>
   p_lastAttackTime (player (handleAttack 5000 (duel Melee))) = 5000 \<and>
   one_window [5000, 5016, 5600, 6000] (p_attackSpeed (player (duel Melee))) \<and>
   length (projectiles (holdAttack [5000, 5016, 5600, 6000] (duel Melee))) \<le> 1"
  using handleAttack_once_per_window [of "duel Melee" 5000 "[5000, 5016, 5600, 6000]"]
  by (simp add: duel_simps defaultPlayer_def exceedsCooldown_def one_window_def) blast

section \<open>Health bounds\<close>

lemma takeDamage_player:
  "player (takeDamage d s) = (player s)\<lparr> p_health := max 0 (p_health (player s) - d) \<rparr>"
  by (simp add: takeDamage_def onPlayerDeath_def stopGame_def Let_def)

lemma takeDamage_enemyProjectiles:
  "enemyProjectiles (takeDamage d s) = enemyProjectiles s"
  by (simp add: takeDamage_def onPlayerDeath_def stopGame_def Let_def)

lemma call_health_ok:
  assumes "player_health_ok s" "nonneg_call c"
  shows "player_health_ok (call c s)"
proof (cases c)
  case (TakeDamage d)
  then show ?thesis using assms by (auto simp: player_health_ok_def takeDamage_player)
next
  case (RegenTick now)
  then show ?thesis using assms by (auto simp: player_health_ok_def handleRegeneration_def)
next
  case (UpgradeMaxHealth amount)
  then show ?thesis using assms by (simp add: player_health_ok_def upgradeMaxHealth_def)
next
  case (UpgradeDamage amount)
  then show ?thesis using assms by (simp add: player_health_ok_def upgradeDamage_def)
next
  case (UpgradeSpeed multiplier)
  then show ?thesis using assms by (simp add: player_health_ok_def upgradeSpeed_def)
next
  case (UpgradeAttackSpeed multiplier)
  then show ?thesis using assms by (simp add: player_health_ok_def upgradeAttackSpeed_def)
next
  case (EnableRegeneration now)
  then show ?thesis using assms by (simp add: player_health_ok_def enableRegeneration_def)
next
  case (SelectUpgrade u now)
  then show ?thesis using assms
    by (cases u) (auto simp: player_health_ok_def selectUpgrade_def upgradeMaxHealth_def
        upgradeDamage_def upgradeSpeed_def upgradeAttackSpeed_def enableRegeneration_def)
qed

lemma calls_health_ok:
  "player_health_ok s \<Longrightarrow> \<forall>c \<in> set cs. nonneg_call c \<Longrightarrow> player_health_ok (calls cs s)"
  by (induction cs arbitrary: s) (simp_all add: call_health_ok)

lemma gainXP_enemies:
  "enemies (gainXP a s) = enemies s" "enemyObjs (gainXP a s) = enemyObjs s"
  by (simp_all add: gainXP_def levelUp_def showLevelUpScreen_def Let_def)

lemma damageEnemy_health_ok:
  assumes "enemies_health_ok s" "0 \<le> d"
  shows "enemies_health_ok (damageEnemy ref d s)"
proof (cases "enemyObjs s ref")
  case None
  then show ?thesis using assms by (simp add: damageEnemy_def)
next
  case (Some enemy)
  have objs: "enemyObjs (damageEnemy ref d s) =
      (enemyObjs s)(ref \<mapsto> enemy\<lparr> e_health := e_health enemy - d \<rparr>)"
    using Some by (simp add: damageEnemy_def killEnemy_def onEnemyKilled_def gainXP_enemies Let_def)
  show ?thesis
  proof (cases "e_health enemy - d \<le> 0")
    case True
    then have "enemies (damageEnemy ref d s) = remove1 ref (enemies s)"
      using Some by (simp add: damageEnemy_def killEnemy_def onEnemyKilled_def gainXP_enemies Let_def)
    then show ?thesis using assms objs by (auto simp: enemies_health_ok_def)
  next
    case False
    then have "enemies (damageEnemy ref d s) = enemies s"
      using Some by (simp add: damageEnemy_def Let_def)
    then show ?thesis using assms Some False objs by (auto simp: enemies_health_ok_def)
  qed
qed

lemma applyHits_health_ok:
  "enemies_health_ok s \<Longrightarrow> \<forall>h \<in> set hits. 0 \<le> snd h \<Longrightarrow> enemies_health_ok (applyHits hits s)"
  by (induction hits s rule: applyHits.induct) (simp_all add: damageEnemy_health_ok)

text \<open>
  C3. As stated, for any upgrade call and any damage, the claim fails: neither
  upgradeMaxHealth nor damageEnemy clamps, so upgradeMaxHealth with a negative amount
  takes the player's health below 0 and a negative damage takes an enemy's health above
  its maximum. What holds is this. For the player: after any sequence of takeDamage with
  an amount that is not negative, regeneration ticks, upgradeMaxHealth with an amount
  that is not negative, the other upgrade methods and enableRegeneration with any
  argument, and choices of an upgrade of the catalog, the health lies within
  \<open>[0, maxHealth]\<close> if it did before. For the enemies: once the calls that apply a list
  of hits, each with a damage that is not negative, have returned, every enemy that is
  still in the live collection has its health within \<open>[0, maxHealth]\<close> if that held
  before (an enemy whose health falls to 0 or below is removed by the call that damaged
  it). As both hold for every sequence, they hold after each call of one.
\<close>

theorem health_within_bounds:
  assumes "\<forall>c \<in> set cs. nonneg_call c" and "\<forall>h \<in> set hits. 0 \<le> snd h"
  shows "(player_health_ok s \<longrightarrow> player_health_ok (calls cs s)) \<and>
         (enemies_health_ok s \<longrightarrow> enemies_health_ok (applyHits hits s))"
  using assms by (simp add: calls_health_ok applyHits_health_ok)

text \<open>
  The player takes 30 damage, chooses the health upgrade, raises the maximum by 5 more,
  has regeneration enabled and a tick of it, and takes 250: the health goes 70, 90, 95,
  97, 0 under a maximum of 125. The melee enemy of floor 5 (health 66) is hit for 10
  and for 20 and is alive with health 36; hit for 10, for 60 and, the reference being
  still in the list of hits, for 10 again, it is gone at the second hit.
\<close>

theorem health_within_bounds_witness:
  "player_health_ok (duel Melee) \<and> enemies_health_ok (duel Melee) \<and>
   p_health (player (calls [TakeDamage 30, SelectUpgrade Up_health 0, UpgradeMaxHealth 5,
       EnableRegeneration 0, RegenTick 5000] (duel Melee))) = 97 \<and>
   p_maxHealth (player (calls [TakeDamage 30, SelectUpgrade Up_health 0, UpgradeMaxHealth 5,
       EnableRegeneration 0, RegenTick 5000] (duel Melee))) = 125 \<and>
   player_health_ok
     (calls [TakeDamage 30, SelectUpgrade Up_health 0, UpgradeMaxHealth 5,
       EnableRegeneration 0, RegenTick 5000, TakeDamage 250] (duel Melee)) \<and>
   p_health (player (calls [TakeDamage 30, SelectUpgrade Up_health 0, UpgradeMaxHealth 5,
       EnableRegeneration 0, RegenTick 5000, TakeDamage 250] (duel Melee))) = 0 \<and>
   enemies (applyHits [(0, 10), (0, 20)] (duel Melee)) = [0] \<and>
   (\<exists>enemy. enemyObjs (applyHits [(0, 10), (0, 20)] (duel Melee)) 0 = Some enemy \<and>
      e_health enemy = 36 \<and> e_maxHealth enemy = 66) \<and>
   enemies_health_ok (applyHits [(0, 10), (0, 20)] (duel Melee)) \<and>
   enemies (applyHits [(0, 10), (0, 60), (0, 10)] (duel Melee)) = [] \<and>
   enemies_health_ok (applyHits [(0, 10), (0, 60), (0, 10)] (duel Melee))"
proof -
  let ?cs = "[TakeDamage 30, SelectUpgrade Up_health 0, UpgradeMaxHealth 5,
       EnableRegeneration 0, RegenTick 5000, TakeDamage 250]"
  have p: "player_health_ok (duel Melee)" "enemies_health_ok (duel Melee)"
    by (simp_all add: duel_simps defaultPlayer_def player_health_ok_def enemies_health_ok_def)
  have v: "p_health (player (calls [TakeDamage 30, SelectUpgrade Up_health 0, UpgradeMaxHealth 5,
       EnableRegeneration 0, RegenTick 5000] (duel Melee))) = 97"
    "p_maxHealth (player (calls [TakeDamage 30, SelectUpgrade Up_health 0, UpgradeMaxHealth 5,
       EnableRegeneration 0, RegenTick 5000] (duel Melee))) = 125"
    "p_health (player (calls ?cs (duel Melee))) = 0"
    by (simp_all add: duel_simps defaultPlayer_def takeDamage_def onPlayerDeath_def stopGame_def
        selectUpgrade_def upgradeMaxHealth_def enableRegeneration_def handleRegeneration_def Let_def)
  have e: "enemies (applyHits [(0, 10), (0, 20)] (duel Melee)) = [0]"
    "\<exists>enemy. enemyObjs (applyHits [(0, 10), (0, 20)] (duel Melee)) 0 = Some enemy \<and>
      e_health enemy = 36 \<and> e_maxHealth enemy = 66"
    "enemies (applyHits [(0, 10), (0, 60), (0, 10)] (duel Melee)) = []"
    by (simp_all add: duel_simps damageEnemy_def killEnemy_def onEnemyKilled_def gainXP_enemies Let_def)
  show ?thesis
    using p v e health_within_bounds [of ?cs "[(0, 10), (0, 20)]" "duel Melee"]
      health_within_bounds [of ?cs "[(0, 10), (0, 60), (0, 10)]" "duel Melee"]
    by simp
qed

text \<open>
  From the initial state, within the bounds, upgradeMaxHealth with the amount -150 leaves
  health and maximum at -50; the melee enemy of floor 5, damaged by -10, stays in the
  live collection with health 76 above its maximum of 66.
\<close>

theorem health_within_bounds_counterexample:
  "player_health_ok initialWorld \<and>
   p_health (player (upgradeMaxHealth (- 150) initialWorld)) = - 50 \<and>
   p_maxHealth (player (upgradeMaxHealth (- 150) initialWorld)) = - 50 \<and>
   \<not> player_health_ok (upgradeMaxHealth (- 150) initialWorld) \<and>
   enemies_health_ok (duel Melee) \<and>
   enemies (damageEnemy 0 (- 10) (duel Melee)) = [0] \<and>
   enemyObjs (damageEnemy 0 (- 10) (duel Melee)) 0 =
     map_option (\<lambda>enemy. enemy\<lparr> e_health := 76 \<rparr>) (enemyObjs (duel Melee) 0) \<and>
   \<not> enemies_health_ok (damageEnemy 0 (- 10) (duel Melee))"
  by (simp add: initialWorld_def defaultPlayer_def player_health_ok_def upgradeMaxHealth_def
      duel_simps enemies_health_ok_def damageEnemy_def Let_def)

section \<open>Level generation\<close>

lemma grid_ok_tile_at:
  "grid_ok g \<Longrightarrow> in_grid y x \<Longrightarrow> tile_at g y x = Some (cell g (y, x))"
  by (auto simp: grid_ok_def in_grid_def tile_at_def cell_def)

lemma set_tile_grid:
  assumes "grid_ok g" "in_grid y x"
  shows "\<exists>g'. set_tile g y x t = Some g' \<and> grid_ok g' \<and>
           (\<forall>y' x'. in_grid y' x' \<longrightarrow> cell g' (y', x') = (if (y', x') = (y, x) then t else cell g (y', x')))"
proof -
  let ?g' = "g[nat y := (g ! nat y)[nat x := t]]"
  have len: "length g = 50" and rows: "\<And>i. i < 50 \<Longrightarrow> length (g ! i) = 50"
    using assms(1) by (auto simp: grid_ok_def levelHeight_def levelWidth_def)
  have yx: "0 \<le> y" "y < 50" "0 \<le> x" "x < 50"
    using assms(2) by (auto simp: in_grid_def levelHeight_def levelWidth_def)
  have 1: "set_tile g y x t = Some ?g'"
    using len rows[of "nat y"] yx by (simp add: set_tile_def)
  have 2: "grid_ok ?g'"
    unfolding grid_ok_def
  proof (intro conjI ballI)
    show "int (length ?g') = levelHeight" using len by (simp add: levelHeight_def)
  next
    fix row assume "row \<in> set ?g'"
    then have "row = (g ! nat y)[nat x := t] \<or> row \<in> set g"
      using set_update_subset_insert[of g "nat y" "(g ! nat y)[nat x := t]"] by auto
    then show "int (length row) = levelWidth"
      using assms(1) rows[of "nat y"] yx by (auto simp: grid_ok_def levelWidth_def)
  qed
  have 3: "cell ?g' (y', x') = (if (y', x') = (y, x) then t else cell g (y', x'))"
    if "in_grid y' x'" for y' x'
  proof -
    have b: "0 \<le> y'" "y' < 50" "0 \<le> x'" "x' < 50"
      using that by (auto simp: in_grid_def levelHeight_def levelWidth_def)
    show ?thesis
    proof (cases "y' = y")
      case True
      then show ?thesis using len rows[of "nat y"] yx b
        by (cases "x' = x") (auto simp: cell_def nth_list_update)
    next
      case False
      then have "nat y' \<noteq> nat y" using yx b by auto
      then show ?thesis using False by (simp add: cell_def)
    qed
  qed
  show ?thesis using 1 2 3 by blast
qed

lemma floor_scaled:
  assumes "0 \<le> r" "r < 1" "0 < n"
  shows "0 \<le> \<lfloor>r * real_of_int n\<rfloor>" and "\<lfloor>r * real_of_int n\<rfloor> < n"
proof -
  show "0 \<le> \<lfloor>r * real_of_int n\<rfloor>" using assms by simp
  have "r * real_of_int n < real_of_int n" using assms by simp
  then show "\<lfloor>r * real_of_int n\<rfloor> < n" by (simp add: floor_less_iff)
qed

lemma rnd_ok_Math_random:
  assumes "rnd_ok e"
  shows "0 \<le> fst (Math_random e)" "fst (Math_random e) < 1" "rnd_ok (snd (Math_random e))"
  using assms by (auto simp: rnd_ok_def Math_random_def)

lemma rnd_ok_Date_now: "rnd_ok e \<Longrightarrow> rnd_ok (snd (Date_now e))"
  by (simp add: rnd_ok_def Date_now_def)










lemma in_grid_rowMajor: "c \<in> set rowMajor \<longleftrightarrow> in_grid (fst c) (snd c)"
  by (cases c) (auto simp: rowMajor_def in_grid_def)

lemma distinct_rowMajor: "distinct rowMajor"
  by (simp add: rowMajor_def distinct_product)

lemma two_walkable:
  assumes "in_grid y x" "in_grid y (x + 1)" "walkable (cell g (y, x))" "walkable (cell g (y, x + 1))"
  shows "2 \<le> length (walkableCells g)"
proof -
  let ?S = "{c \<in> set rowMajor. walkable (cell g c)}"
  have "distinct (walkableCells g)" by (simp add: walkableCells_def distinct_rowMajor)
  then have len: "length (walkableCells g) = card ?S"
    using distinct_card[of "walkableCells g"] by (simp add: walkableCells_def)
  have "{(y, x), (y, x + 1)} \<subseteq> ?S" using assms by (simp add: in_grid_rowMajor)
  then have "card {(y, x), (y, x + 1)} \<le> card ?S" by (intro card_mono) simp_all
  then show ?thesis using len by simp
qed











lemma collectFloorTiles_filter:
  assumes "grid_ok g" "\<forall>c \<in> set cs. in_grid (fst c) (snd c)"
  shows "collectFloorTiles g cs = Some (filter (\<lambda>c. walkable (cell g c)) cs)"
  using assms(2)
proof (induction cs)
  case Nil
  then show ?case by simp
next
  case (Cons c cs)
  obtain y x where c: "c = (y, x)" by (cases c)
  have "tile_at g y x = Some (cell g (y, x))"
    using grid_ok_tile_at[OF assms(1)] Cons.prems c by simp
  then show ?case using Cons c by simp
qed

lemma collectFloorTiles_rowMajor:
  "grid_ok g \<Longrightarrow> collectFloorTiles g rowMajor = Some (walkableCells g)"
  unfolding walkableCells_def by (rule collectFloorTiles_filter) (simp_all add: in_grid_rowMajor)

lemma set_type_grid:
  assumes "grid_ok g" "in_grid y x"
  shows "\<exists>g'. set_type g y x ty = Some g' \<and> grid_ok g' \<and>
           (\<forall>y' x'. in_grid y' x' \<longrightarrow>
              cell g' (y', x') = (if (y', x') = (y, x) then (cell g (y, x))\<lparr> t_type := ty \<rparr>
                                  else cell g (y', x')))"
  using set_tile_grid[OF assms, of "(cell g (y, x))\<lparr> t_type := ty \<rparr>"] grid_ok_tile_at[OF assms]
  by (simp add: set_type_def)

lemma find_hd_filter:
  "filter P xs \<noteq> [] \<Longrightarrow> List.find P xs = Some (hd (filter P xs))"
  by (induction xs) auto

lemma find_last_filter:
  assumes "filter P xs \<noteq> []"
  shows "List.find P (rev xs) = Some (last (filter P xs))"
proof -
  have "filter P (rev xs) \<noteq> []" using assms by (simp add: rev_filter[symmetric])
  then have "List.find P (rev xs) = Some (hd (filter P (rev xs)))" by (rule find_hd_filter)
  also have "hd (filter P (rev xs)) = last (filter P xs)"
    using assms by (simp add: rev_filter[symmetric] hd_rev)
  finally show ?thesis .
qed

lemma hd_neq_last:
  assumes "distinct xs" "2 \<le> length xs"
  shows "hd xs \<noteq> last xs"
proof -
  have "0 < length xs" "length xs - 1 < length xs" "0 \<noteq> length xs - 1"
    using assms(2) by linarith+
  then have "xs ! 0 \<noteq> xs ! (length xs - 1)"
    using nth_eq_iff_index_eq[OF assms(1), of 0 "length xs - 1"] by blast
  moreover have "xs \<noteq> []" using assms(2) by auto
  ultimately show ?thesis by (simp add: hd_conv_nth last_conv_nth)
qed

lemma placeEntranceAndExit_skip:
  assumes "grid_ok (tiles s)" "\<not> 2 \<le> length (walkableCells (tiles s))"
  shows "placeEntranceAndExit s = Some s"
  using assms by (simp add: placeEntranceAndExit_def collectFloorTiles_rowMajor)

lemma placeEntranceAndExit_place:
  assumes ok: "grid_ok (tiles s)" and two: "2 \<le> length (walkableCells (tiles s))"
  defines "entrance \<equiv> hd (walkableCells (tiles s))" and "exit' \<equiv> last (walkableCells (tiles s))"
  shows "\<exists>g'. placeEntranceAndExit s =
              Some (s\<lparr> tiles := g',
                      player := (player s)\<lparr> p_x := real_of_int (snd entrance) * 32 + 16,
                                           p_y := real_of_int (fst entrance) * 32 + 16 \<rparr> \<rparr>) \<and>
           grid_ok g' \<and> entrance \<noteq> exit' \<and>
           in_grid (fst entrance) (snd entrance) \<and> in_grid (fst exit') (snd exit') \<and>
           (\<forall>y x. in_grid y x \<longrightarrow>
              cell g' (y, x) =
                (if (y, x) = exit' then (cell (tiles s) (y, x))\<lparr> t_type := Exit \<rparr>
                 else if (y, x) = entrance then (cell (tiles s) (y, x))\<lparr> t_type := Entrance \<rparr>
                 else cell (tiles s) (y, x)))"
proof -
  let ?ft = "walkableCells (tiles s)"
  have ne: "?ft \<noteq> []" using two by auto
  have "distinct ?ft" by (simp add: walkableCells_def distinct_rowMajor)
  then have neq: "entrance \<noteq> exit'"
    unfolding entrance_def exit'_def using two by (rule hd_neq_last)
  have "entrance \<in> set ?ft" "exit' \<in> set ?ft"
    unfolding entrance_def exit'_def using ne by simp_all
  then have "entrance \<in> set rowMajor" "exit' \<in> set rowMajor"
    by (simp_all add: walkableCells_def)
  then have inE: "in_grid (fst entrance) (snd entrance)" and inX: "in_grid (fst exit') (snd exit')"
    by (simp_all add: in_grid_rowMajor)
  obtain g1 where g1: "set_type (tiles s) (fst entrance) (snd entrance) Entrance = Some g1" "grid_ok g1"
    "\<forall>y' x'. in_grid y' x' \<longrightarrow>
       cell g1 (y', x') = (if (y', x') = (fst entrance, snd entrance)
                           then (cell (tiles s) (fst entrance, snd entrance))\<lparr> t_type := Entrance \<rparr>
                           else cell (tiles s) (y', x'))"
    using set_type_grid[OF ok inE] by blast
  obtain g2 where g2: "set_type g1 (fst exit') (snd exit') Exit = Some g2" "grid_ok g2"
    "\<forall>y' x'. in_grid y' x' \<longrightarrow>
       cell g2 (y', x') = (if (y', x') = (fst exit', snd exit')
                           then (cell g1 (fst exit', snd exit'))\<lparr> t_type := Exit \<rparr>
                           else cell g1 (y', x'))"
    using set_type_grid[OF g1(2) inX] by blast
  have cells: "cell g2 (y, x) =
                (if (y, x) = exit' then (cell (tiles s) (y, x))\<lparr> t_type := Exit \<rparr>
                 else if (y, x) = entrance then (cell (tiles s) (y, x))\<lparr> t_type := Entrance \<rparr>
                 else cell (tiles s) (y, x))" if "in_grid y x" for y x
    using g1(3) g2(3) that inX neq by (cases "(y, x) = exit'") auto
  have "placeEntranceAndExit s =
      Some (s\<lparr> tiles := g2,
              player := (player s)\<lparr> p_x := real_of_int (snd entrance) * 32 + 16,
                                   p_y := real_of_int (fst entrance) * 32 + 16 \<rparr> \<rparr>)"
    using two g1(1) g2(1) ok
    by (simp add: placeEntranceAndExit_def collectFloorTiles_rowMajor entrance_def[symmetric]
        exit'_def[symmetric] case_prod_beta setPosition_def tileSize_def)
  then show ?thesis using g2(2) neq inE inX cells by blast
qed



lemma grid_ok_sampleGrid: "grid_ok sampleGrid"
  by (auto simp: grid_ok_def sampleGrid_def levelHeight_def levelWidth_def)

lemma cell_sampleGrid:
  assumes "in_grid y x"
  shows "cell sampleGrid (y, x) =
     (if 1 \<le> x \<and> x \<le> 4 \<and> 1 \<le> y \<and> y \<le> 4 then floorTile x y
      else \<lparr> t_x = x, t_y = y, t_type = Wall, walkable = False \<rparr>)"
proof -
  have b: "0 \<le> y" "y < 50" "0 \<le> x" "x < 50"
    using assms by (simp_all add: in_grid_def levelHeight_def levelWidth_def)
  then have "[0..49] ! nat y = y" "[0..49] ! nat x = x" "nat y < length [0..49]" "nat x < length [0..49]"
    by simp_all
  then show ?thesis
    by (simp add: cell_def sampleGrid_def levelHeight_def levelWidth_def)
qed

lemma unplaced_sampleGrid: "unplaced sampleGrid"
  by (simp add: unplaced_def cell_sampleGrid floorTile_def)


lemma sorted_wrt_product:
  fixes ys xs :: "int list"
  assumes "sorted_wrt (<) ys" "sorted_wrt (<) xs"
  shows "sorted_wrt rowBefore (List.product ys xs)"
  using assms(1)
proof (induction ys)
  case Nil
  then show ?case by simp
next
  case (Cons y ys)
  have 1: "sorted_wrt rowBefore (map (Pair y) xs)"
    using assms(2) by (simp add: sorted_wrt_map rowBefore_def)
  have 2: "sorted_wrt rowBefore (List.product ys xs)" using Cons by simp
  have 3: "\<forall>a \<in> set (map (Pair y) xs). \<forall>b \<in> set (List.product ys xs). rowBefore a b"
    using Cons.prems by (auto simp: rowBefore_def)
  show ?case using 1 2 3 by (simp add: sorted_wrt_append)
qed

lemma sorted_rowMajor: "sorted_wrt rowBefore rowMajor"
  unfolding rowMajor_def by (rule sorted_wrt_product) simp_all

lemma find_sorted_first:
  assumes "sorted_wrt R xs" "List.find P xs = Some e" "z \<in> set xs" "P z"
  shows "z = e \<or> R e z"
  using assms by (induction xs) (auto split: if_splits)

lemma find_rev_sorted_last:
  assumes "sorted_wrt R xs" "List.find P (rev xs) = Some e" "z \<in> set xs" "P z"
  shows "z = e \<or> R z e"
proof -
  have "sorted_wrt (\<lambda>a b. R b a) (rev xs)" using assms(1) by (simp add: sorted_wrt_rev)
  then show ?thesis using find_sorted_first[of "\<lambda>a b. R b a" "rev xs" P e z] assms(2-4) by simp
qed

text \<open>
  C8. placeEntranceAndExit on a grid of the generated shape that holds walls and floor
  cells only. With at least two walkable cells: the first walkable cell in row-major
  order becomes the one and only cell of type entrance, the last the one and only cell of
  type exit, no walkable flag changes, and the player is put at the centre of the entrance
  cell; nothing else changes. With fewer: nothing changes at all.
\<close>

theorem placeEntranceAndExit_first_last:
  assumes "grid_ok (tiles s)" and "unplaced (tiles s)"
  shows "\<exists>s'. placeEntranceAndExit s = Some s' \<and>
    (if 2 \<le> length (walkableCells (tiles s)) then
       (\<exists>entrance exit'.
          List.find (\<lambda>c. walkable (cell (tiles s) c)) rowMajor = Some entrance \<and>
          List.find (\<lambda>c. walkable (cell (tiles s) c)) (rev rowMajor) = Some exit' \<and>
          in_grid (fst entrance) (snd entrance) \<and> in_grid (fst exit') (snd exit') \<and>
          (\<forall>y x. in_grid y x \<and> walkable (cell (tiles s) (y, x)) \<longrightarrow>
             ((y, x) = entrance \<or> rowBefore entrance (y, x)) \<and>
             ((y, x) = exit' \<or> rowBefore (y, x) exit')) \<and>
          grid_ok (tiles s') \<and>
          (\<forall>y x. in_grid y x \<longrightarrow>
             (t_type (cell (tiles s') (y, x)) = Entrance \<longleftrightarrow> (y, x) = entrance) \<and>
             (t_type (cell (tiles s') (y, x)) = Exit \<longleftrightarrow> (y, x) = exit') \<and>
             walkable (cell (tiles s') (y, x)) = walkable (cell (tiles s) (y, x))) \<and>
          s' = s\<lparr> tiles := tiles s',
                  player := (player s)\<lparr> p_x := real_of_int (snd entrance) * 32 + 16,
                                       p_y := real_of_int (fst entrance) * 32 + 16 \<rparr> \<rparr>)
     else s' = s)"
proof (cases "2 \<le> length (walkableCells (tiles s))")
  case False
  then show ?thesis using placeEntranceAndExit_skip[OF assms(1)] by simp
next
  case True
  let ?P = "\<lambda>c. walkable (cell (tiles s) c)"
  let ?en = "hd (walkableCells (tiles s))" and ?ex = "last (walkableCells (tiles s))"
  have ne: "filter ?P rowMajor \<noteq> []" using True by (auto simp: walkableCells_def)
  have f1: "List.find ?P rowMajor = Some ?en"
    unfolding walkableCells_def using ne by (rule find_hd_filter)
  have f2: "List.find ?P (rev rowMajor) = Some ?ex"
    unfolding walkableCells_def using ne by (rule find_last_filter)
  have order: "((y, x) = ?en \<or> rowBefore ?en (y, x)) \<and> ((y, x) = ?ex \<or> rowBefore (y, x) ?ex)"
    if "in_grid y x \<and> walkable (cell (tiles s) (y, x))" for y x
  proof -
    have m: "(y, x) \<in> set rowMajor" using that by (simp add: in_grid_rowMajor)
    show ?thesis
      using find_sorted_first[OF sorted_rowMajor f1 m] find_rev_sorted_last[OF sorted_rowMajor f2 m] that
      by blast
  qed
  obtain g' where g': "placeEntranceAndExit s =
              Some (s\<lparr> tiles := g',
                      player := (player s)\<lparr> p_x := real_of_int (snd ?en) * 32 + 16,
                                           p_y := real_of_int (fst ?en) * 32 + 16 \<rparr> \<rparr>)"
     "grid_ok g'" "?en \<noteq> ?ex" "in_grid (fst ?en) (snd ?en)" "in_grid (fst ?ex) (snd ?ex)"
     "\<forall>y x. in_grid y x \<longrightarrow>
              cell g' (y, x) =
                (if (y, x) = ?ex then (cell (tiles s) (y, x))\<lparr> t_type := Exit \<rparr>
                 else if (y, x) = ?en then (cell (tiles s) (y, x))\<lparr> t_type := Entrance \<rparr>
                 else cell (tiles s) (y, x))"
    using placeEntranceAndExit_place[OF assms(1) True] by blast
  have types: "(t_type (cell g' (y, x)) = Entrance \<longleftrightarrow> (y, x) = ?en) \<and>
             (t_type (cell g' (y, x)) = Exit \<longleftrightarrow> (y, x) = ?ex) \<and>
             walkable (cell g' (y, x)) = walkable (cell (tiles s) (y, x))" if "in_grid y x" for y x
  proof -
    have "t_type (cell (tiles s) (y, x)) = Wall \<or> t_type (cell (tiles s) (y, x)) = Floor"
      using assms(2) that by (simp add: unplaced_def)
    then show ?thesis using g'(6) g'(3) that by auto
  qed
  show ?thesis
    using True f1 f2 g'(1,2,4,5) types order by simp
qed

lemma walkable_sampleGrid:
  "in_grid y x \<Longrightarrow> walkable (cell sampleGrid (y, x)) \<longleftrightarrow> 1 \<le> x \<and> x \<le> 4 \<and> 1 \<le> y \<and> y \<le> 4"
  by (simp add: cell_sampleGrid floorTile_def)

lemma two_walkable_sampleGrid: "2 \<le> length (walkableCells sampleGrid)"
  by (rule two_walkable[of 1 1]) (simp_all add: walkable_sampleGrid in_grid_def levelHeight_def levelWidth_def)

text \<open>
  On the grid whose only room is the cells 1 to 4 of rows 1 to 4, the entrance is the cell
  (1, 1), the exit the cell (4, 4), and the player stands at (48, 48).
\<close>

theorem placeEntranceAndExit_first_last_witness:
  "grid_ok (tiles sampleLevel) \<and> unplaced (tiles sampleLevel) \<and>
   2 \<le> length (walkableCells (tiles sampleLevel)) \<and>
   (\<exists>s'. placeEntranceAndExit sampleLevel = Some s' \<and>
      t_type (cell (tiles s') (1, 1)) = Entrance \<and> t_type (cell (tiles s') (4, 4)) = Exit \<and>
      t_type (cell (tiles s') (1, 2)) \<noteq> Entrance \<and>
      p_x (player s') = 48 \<and> p_y (player s') = 48)"
proof -
  let ?g = "tiles sampleLevel"
  have g: "?g = sampleGrid" by (simp add: sampleLevel_def)
  have h: "grid_ok ?g" "unplaced ?g" "2 \<le> length (walkableCells ?g)"
    unfolding g by (rule grid_ok_sampleGrid unplaced_sampleGrid two_walkable_sampleGrid)+
  have in11: "in_grid 1 1" and in44: "in_grid 4 4" and in12: "in_grid 1 2"
    by (simp_all add: in_grid_def levelHeight_def levelWidth_def)
  obtain s' en ex where s': "placeEntranceAndExit sampleLevel = Some s'"
    and en: "in_grid (fst en) (snd en)" and ex: "in_grid (fst ex) (snd ex)"
    and f: "List.find (\<lambda>c. walkable (cell ?g c)) rowMajor = Some en"
      "List.find (\<lambda>c. walkable (cell ?g c)) (rev rowMajor) = Some ex"
    and ord: "\<forall>y x. in_grid y x \<and> walkable (cell ?g (y, x)) \<longrightarrow>
             ((y, x) = en \<or> rowBefore en (y, x)) \<and> ((y, x) = ex \<or> rowBefore (y, x) ex)"
    and ty: "\<forall>y x. in_grid y x \<longrightarrow>
             (t_type (cell (tiles s') (y, x)) = Entrance \<longleftrightarrow> (y, x) = en) \<and>
             (t_type (cell (tiles s') (y, x)) = Exit \<longleftrightarrow> (y, x) = ex) \<and>
             walkable (cell (tiles s') (y, x)) = walkable (cell ?g (y, x))"
    and eq: "s' = sampleLevel\<lparr> tiles := tiles s',
                  player := (player sampleLevel)\<lparr> p_x := real_of_int (snd en) * 32 + 16,
                                       p_y := real_of_int (fst en) * 32 + 16 \<rparr> \<rparr>"
    using placeEntranceAndExit_first_last[OF h(1,2)] h(3) by auto
  have "walkable (cell sampleGrid en)" "walkable (cell sampleGrid ex)"
    using f unfolding g by (auto simp: find_Some_iff)
  then have ben: "1 \<le> snd en" "snd en \<le> 4" "1 \<le> fst en" "fst en \<le> 4"
    and bex: "1 \<le> snd ex" "snd ex \<le> 4" "1 \<le> fst ex" "fst ex \<le> 4"
    using walkable_sampleGrid[OF en] walkable_sampleGrid[OF ex] by simp_all
  have "(1, 1) = en \<or> rowBefore en (1, 1)" "(4, 4) = ex \<or> rowBefore (4, 4) ex"
    using ord in11 in44 unfolding g by (simp_all add: walkable_sampleGrid)
  then have loc: "en = (1, 1)" "ex = (4, 4)"
    using ben bex by (auto simp: rowBefore_def prod_eq_iff)
  have "player s' = (player sampleLevel)\<lparr> p_x := real_of_int (snd en) * 32 + 16,
                                       p_y := real_of_int (fst en) * 32 + 16 \<rparr>"
    by (subst eq) simp
  then have pos: "p_x (player s') = 48" "p_y (player s') = 48"
    using loc by simp_all
  have "t_type (cell (tiles s') (1, 1)) = Entrance" "t_type (cell (tiles s') (4, 4)) = Exit"
    "t_type (cell (tiles s') (1, 2)) \<noteq> Entrance"
    using ty in11 in44 in12 loc by simp_all
  then show ?thesis using h s' pos by simp
qed



section \<open>Walkability query\<close>

text \<open>
  C10. On a grid of the generated shape, isWalkable returns for every pair of real
  coordinates: false when \<open>floor (x / 32)\<close> or \<open>floor (y / 32)\<close> is negative or at
  least 50, and otherwise the walkable flag of the tile stored at that row and column.
  It never reads outside the array (such a read would be the result \<open>None\<close>).
\<close>

theorem isWalkable_total:
  assumes "grid_ok (tiles s)"
  shows "isWalkable x y s =
     Some (if \<lfloor>x / 32\<rfloor> < 0 \<or> \<lfloor>x / 32\<rfloor> \<ge> 50 \<or> \<lfloor>y / 32\<rfloor> < 0 \<or> \<lfloor>y / 32\<rfloor> \<ge> 50 then False
           else walkable (tiles s ! nat \<lfloor>y / 32\<rfloor> ! nat \<lfloor>x / 32\<rfloor>))"
  using grid_ok_tile_at[OF assms, of "\<lfloor>y / 32\<rfloor>" "\<lfloor>x / 32\<rfloor>"]
  by (auto simp: isWalkable_def Let_def tileSize_def levelWidth_def levelHeight_def in_grid_def cell_def)

text \<open>
  On the grid with one room: a point left of the grid, a point below it, a point in a
  wall and a point in the room.
\<close>

theorem isWalkable_total_witness:
  "grid_ok (tiles sampleLevel) \<and>
   isWalkable (- 5) 100 sampleLevel = Some False \<and>
   isWalkable 100 1600 sampleLevel = Some False \<and>
   isWalkable 20 100 sampleLevel = Some False \<and>
   isWalkable 100 40.5 sampleLevel = Some True"
proof -
  have g: "tiles sampleLevel = sampleGrid" by (simp add: sampleLevel_def)
  have ok: "grid_ok (tiles sampleLevel)" unfolding g by (rule grid_ok_sampleGrid)
  have f: "\<lfloor>- 5 / 32 :: real\<rfloor> = - 1" "\<lfloor>100 / 32 :: real\<rfloor> = 3" "\<lfloor>1600 / 32 :: real\<rfloor> = 50"
    "\<lfloor>20 / 32 :: real\<rfloor> = 0" "\<lfloor>40.5 / 32 :: real\<rfloor> = 1"
    by (simp_all add: floor_eq_iff)
  have c: "walkable (sampleGrid ! 3 ! 0) = False" "walkable (sampleGrid ! 1 ! 3) = True"
    using cell_sampleGrid[of 3 0] cell_sampleGrid[of 1 3]
    by (simp_all add: cell_def in_grid_def levelHeight_def levelWidth_def floorTile_def)
  show ?thesis
    using ok c isWalkable_total[OF ok, of "- 5" 100] isWalkable_total[OF ok, of 100 1600]
      isWalkable_total[OF ok, of 20 100] isWalkable_total[OF ok, of 100 "40.5"]
    by (simp add: f g)
qed

section \<open>Enemy statistics and attacks\<close>

text \<open>
  C5. An enemy created of type \<open>t\<close> on floor \<open>f\<close> has health and maximal health
  \<open>base health * (1 + (f - 1) * 0.3)\<close> and damage \<open>base damage * (1 + (f - 1) * 0.2)\<close>,
  and the speed, attack cooldown and radius of the table, unscaled (melee 30/15/80/1500/16,
  ranged 20/12/60/2000/14, fast 15/8/120/800/12, boss 200/25/40/1000/32). It holds for
  every floor number, so for those from 1 on.
\<close>

theorem createEnemy_scaled_stats:
  "\<exists>enemy. enemyObjs (snd (createEnemy t x y f r now s)) (fst (createEnemy t x y f r now s)) = Some enemy
     \<and> e_type enemy = t
     \<and> e_health enemy = tab_health t * (1 + (real_of_int f - 1) * 0.3)
     \<and> e_maxHealth enemy = tab_health t * (1 + (real_of_int f - 1) * 0.3)
     \<and> e_damage enemy = tab_damage t * (1 + (real_of_int f - 1) * 0.2)
     \<and> e_speed enemy = tab_speed t
     \<and> e_attackCooldown enemy = tab_cooldown t
     \<and> e_radius enemy = tab_radius t"
  by (cases t) (simp_all add: createEnemy_def Let_def)

text \<open>A melee enemy of floor 3 has 48 health and 21 damage; a boss of floor 5, 440 and 45.\<close>

theorem createEnemy_scaled_stats_witness:
  "(\<exists>enemy. enemyObjs (snd (createEnemy Melee 10 20 3 0 0 initialWorld)) (fst (createEnemy Melee 10 20 3 0 0 initialWorld)) = Some enemy
     \<and> e_health enemy = 48 \<and> e_maxHealth enemy = 48 \<and> e_damage enemy = 21 \<and> e_speed enemy = 80
     \<and> e_attackCooldown enemy = 1500 \<and> e_radius enemy = 16) \<and>
   (\<exists>enemy. enemyObjs (snd (createEnemy Boss 800 800 5 0 0 initialWorld)) (fst (createEnemy Boss 800 800 5 0 0 initialWorld)) = Some enemy
     \<and> e_health enemy = 440 \<and> e_maxHealth enemy = 440 \<and> e_damage enemy = 45 \<and> e_speed enemy = 40
     \<and> e_attackCooldown enemy = 1000 \<and> e_radius enemy = 32)"
  using createEnemy_scaled_stats [of Melee 10 20 3 0 0 initialWorld]
    createEnemy_scaled_stats [of Boss 800 800 5 0 0 initialWorld]
  by auto

lemma sqrt_quot:
  assumes "x \<noteq> 0"
  shows "sqrt (1 + (y / x)\<^sup>2) = sqrt (x * x + y * y) / \<bar>x\<bar>"
proof -
  have "1 + (y / x)\<^sup>2 = (x * x + y * y) / x\<^sup>2"
    using assms by (simp add: power2_eq_square field_simps)
  then show ?thesis by (simp add: real_sqrt_divide)
qed

lemma atan2_direction:
  assumes "x \<noteq> 0 \<or> y \<noteq> 0"
  shows "cos (Math_atan2 y x) = x / sqrt (x * x + y * y) \<and>
         sin (Math_atan2 y x) = y / sqrt (x * x + y * y)"
proof -
  consider "x > 0" | "x < 0" | "x = 0" "y > 0" | "x = 0" "y < 0"
    using assms by linarith
  then show ?thesis
  proof cases
    case 1
    then show ?thesis
      by (simp add: Math_atan2_def cos_arctan sin_arctan sqrt_quot)
  next
    case 2
    then show ?thesis
      by (simp add: Math_atan2_def cos_arctan sin_arctan sqrt_quot)
  next
    case 3
    then show ?thesis by (simp add: Math_atan2_def)
  next
    case 4
    then show ?thesis by (simp add: Math_atan2_def)
  qed
qed

lemma createEnemyProjectile_eq:
  "enemyObjs s ref = Some enemy \<Longrightarrow>
   createEnemyProjectile ref off s =
     s\<lparr> enemyProjectiles := enemyProjectiles s @ [shot enemy (aim enemy (player s) + off)] \<rparr>"
  by (simp add: createEnemyProjectile_def shot_def aim_def Let_def)

lemma updateEnemyAttack_resolves:
  assumes "enemyObjs s ref = Some enemy" and "e_isAttacking enemy"
    and "now - e_lastAttackTime enemy \<ge> e_attackCooldown enemy"
  shows
    "(e_type enemy = Melee \<or> e_type enemy = Fast \<longrightarrow>
        enemyProjectiles (updateEnemyAttack ref now s) = enemyProjectiles s \<and>
        player (updateEnemyAttack ref now s) =
          (if distanceTo enemy (player s) < 40
           then (player s)\<lparr> p_health := max 0 (p_health (player s) - e_damage enemy) \<rparr>
           else player s)) \<and>
     (e_type enemy = Ranged \<longrightarrow>
        enemyProjectiles (updateEnemyAttack ref now s) =
          enemyProjectiles s @ [shot enemy (aim enemy (player s))] \<and>
        player (updateEnemyAttack ref now s) = player s) \<and>
     (e_type enemy = Boss \<longrightarrow>
        enemyProjectiles (updateEnemyAttack ref now s) =
          enemyProjectiles s @ [shot enemy (aim enemy (player s)),
                                shot enemy (aim enemy (player s) - 0.3),
                                shot enemy (aim enemy (player s) + 0.3)] \<and>
        player (updateEnemyAttack ref now s) = player s) \<and>
     enemyObjs (updateEnemyAttack ref now s) = (enemyObjs s)(ref \<mapsto> enemy\<lparr> e_lastAttackTime := now \<rparr>) \<and>
     (0 < distanceTo enemy (player s) \<longrightarrow>
        cos (aim enemy (player s)) = (p_x (player s) - e_x enemy) / distanceTo enemy (player s) \<and>
        sin (aim enemy (player s)) = (p_y (player s) - e_y enemy) / distanceTo enemy (player s))"
proof -
  let ?s1 = "s\<lparr> enemyObjs := (enemyObjs s)(ref \<mapsto> enemy\<lparr> e_lastAttackTime := now \<rparr>) \<rparr>"
  have dir: "cos (aim enemy (player s)) = (p_x (player s) - e_x enemy) / distanceTo enemy (player s) \<and>
        sin (aim enemy (player s)) = (p_y (player s) - e_y enemy) / distanceTo enemy (player s)"
    if "0 < distanceTo enemy (player s)"
  proof -
    have "p_x (player s) - e_x enemy \<noteq> 0 \<or> p_y (player s) - e_y enemy \<noteq> 0"
      using that by (auto simp: distanceTo_def)
    then show ?thesis unfolding aim_def distanceTo_def by (rule atan2_direction)
  qed
  have o: "enemyObjs ?s1 ref = Some (enemy\<lparr> e_lastAttackTime := now \<rparr>)" by simp
  show ?thesis
  proof (cases "e_type enemy")
    case Melee
    then show ?thesis using assms dir
      by (simp add: updateEnemyAttack_def Let_def distanceTo_def takeDamage_player takeDamage_enemyProjectiles
          takeDamage_def onPlayerDeath_def stopGame_def)
  next
    case Fast
    then show ?thesis using assms dir
      by (simp add: updateEnemyAttack_def Let_def distanceTo_def takeDamage_player takeDamage_enemyProjectiles
          takeDamage_def onPlayerDeath_def stopGame_def)
  next
    case Ranged
    then show ?thesis using assms dir
      by (simp add: updateEnemyAttack_def Let_def createEnemyProjectile_eq[OF o] shot_def aim_def)
  next
    case Boss
    then show ?thesis using assms dir
      by (simp add: updateEnemyAttack_def Let_def createEnemyProjectile_def shot_def aim_def)
  qed
qed

lemma updateEnemyAttack_idle:
  assumes "enemyObjs s ref = Some enemy"
    and "\<not> (e_isAttacking enemy \<and> now - e_lastAttackTime enemy \<ge> e_attackCooldown enemy)"
  shows "updateEnemyAttack ref now s = s"
  using assms by (auto simp: updateEnemyAttack_def)

lemma updateEnemyAttacks_idle:
  assumes "enemyObjs s ref = Some enemy"
    and "\<forall>t \<in> set ts. \<not> (e_isAttacking enemy \<and> t - e_lastAttackTime enemy \<ge> e_attackCooldown enemy)"
  shows "updateEnemyAttacks ref ts s = s"
  using assms(2)
proof (induction ts)
  case Nil
  then show ?case by simp
next
  case (Cons t ts)
  have "updateEnemyAttack ref t s = s"
    using updateEnemyAttack_idle[OF assms(1), of t] Cons.prems by simp
  then show ?case using Cons by simp
qed

lemma updateEnemyAttack_count:
  assumes "enemyObjs s ref = Some enemy" and "e_isAttacking enemy"
    and "now - e_lastAttackTime enemy \<ge> e_attackCooldown enemy"
  shows "length (enemyProjectiles (updateEnemyAttack ref now s)) =
           length (enemyProjectiles s) + shotsPerAttack (e_type enemy)"
  using updateEnemyAttack_resolves[OF assms] by (cases "e_type enemy") simp_all

lemma updateEnemyAttacks_after:
  assumes "enemyObjs s ref = Some enemy" and "e_isAttacking enemy"
    and "now - e_lastAttackTime enemy \<ge> e_attackCooldown enemy"
    and "\<forall>t \<in> set ts. t - now < e_attackCooldown enemy"
  shows "updateEnemyAttacks ref ts (updateEnemyAttack ref now s) = updateEnemyAttack ref now s"
proof -
  let ?s1 = "updateEnemyAttack ref now s"
  let ?e1 = "enemy\<lparr> e_lastAttackTime := now \<rparr>"
  have o: "enemyObjs ?s1 ref = Some ?e1"
    using updateEnemyAttack_resolves[OF assms(1-3)] by simp
  have "\<forall>t \<in> set ts. \<not> (e_isAttacking ?e1 \<and> t - e_lastAttackTime ?e1 \<ge> e_attackCooldown ?e1)"
    using assms(4) by auto
  then show ?thesis by (rule updateEnemyAttacks_idle[OF o])
qed

lemma updateEnemyAttacks_window:
  assumes "enemyObjs s ref = Some enemy"
    and "\<forall>t \<in> set ts. \<forall>t' \<in> set ts. t' - t < e_attackCooldown enemy"
  shows "length (enemyProjectiles (updateEnemyAttacks ref ts s)) \<le>
           length (enemyProjectiles s) + shotsPerAttack (e_type enemy)"
  using assms(2)
proof (induction ts)
  case Nil
  then show ?case by simp
next
  case (Cons t ts)
  show ?case
  proof (cases "e_isAttacking enemy \<and> t - e_lastAttackTime enemy \<ge> e_attackCooldown enemy")
    case False
    have "updateEnemyAttack ref t s = s" by (rule updateEnemyAttack_idle[OF assms(1) False])
    moreover have "\<forall>a \<in> set ts. \<forall>b \<in> set ts. b - a < e_attackCooldown enemy"
      using Cons.prems by simp
    ultimately show ?thesis using Cons.IH by simp
  next
    case True
    have "\<forall>t' \<in> set ts. t' - t < e_attackCooldown enemy" using Cons.prems by simp
    then have "updateEnemyAttacks ref ts (updateEnemyAttack ref t s) = updateEnemyAttack ref t s"
      using updateEnemyAttacks_after[OF assms(1)] True by blast
    then show ?thesis using updateEnemyAttack_count[OF assms(1), of t] True by simp
  qed
qed

text \<open>
  C7. A call of updateEnemyAttack resolves an attack when \<open>isAttacking\<close> is set and the
  cooldown has passed since the enemy's last attack, and does nothing at all otherwise.
  An attack that resolves records its time. A melee or fast enemy then deals its damage
  to the player when the distance is below 40 and nothing otherwise, and fires no
  projectile; a ranged enemy fires exactly one projectile, along the direction of the
  player; a boss fires exactly three, along that direction and at 0.3 rad on either
  side of it. Each projectile starts at the enemy with speed 150, and the direction is
  that of the vector from the enemy to the player. The calls of the frames that follow
  an attack within its cooldown change nothing, and the calls of any frames whose clock
  readings lie in one cooldown window fire between them at most the projectiles of one
  attack: none, one or three.
\<close>

theorem updateEnemyAttack_by_type:
  assumes "enemyObjs s ref = Some enemy"
  shows
    "(e_isAttacking enemy \<and> now - e_lastAttackTime enemy \<ge> e_attackCooldown enemy \<longrightarrow>
        (e_type enemy = Melee \<or> e_type enemy = Fast \<longrightarrow>
           enemyProjectiles (updateEnemyAttack ref now s) = enemyProjectiles s \<and>
           player (updateEnemyAttack ref now s) =
             (if distanceTo enemy (player s) < 40
              then (player s)\<lparr> p_health := max 0 (p_health (player s) - e_damage enemy) \<rparr>
              else player s)) \<and>
        (e_type enemy = Ranged \<longrightarrow>
           enemyProjectiles (updateEnemyAttack ref now s) =
             enemyProjectiles s @ [shot enemy (aim enemy (player s))] \<and>
           player (updateEnemyAttack ref now s) = player s) \<and>
        (e_type enemy = Boss \<longrightarrow>
           enemyProjectiles (updateEnemyAttack ref now s) =
             enemyProjectiles s @ [shot enemy (aim enemy (player s)),
                                   shot enemy (aim enemy (player s) - 0.3),
                                   shot enemy (aim enemy (player s) + 0.3)] \<and>
           player (updateEnemyAttack ref now s) = player s) \<and>
        enemyObjs (updateEnemyAttack ref now s) =
          (enemyObjs s)(ref \<mapsto> enemy\<lparr> e_lastAttackTime := now \<rparr>) \<and>
        ((\<forall>t \<in> set ts. t - now < e_attackCooldown enemy) \<longrightarrow>
           updateEnemyAttacks ref ts (updateEnemyAttack ref now s) = updateEnemyAttack ref now s)) \<and>
     (\<not> (e_isAttacking enemy \<and> now - e_lastAttackTime enemy \<ge> e_attackCooldown enemy) \<longrightarrow>
        updateEnemyAttack ref now s = s) \<and>
     ((\<forall>t \<in> set ts. \<forall>t' \<in> set ts. t' - t < e_attackCooldown enemy) \<longrightarrow>
        length (enemyProjectiles (updateEnemyAttacks ref ts s)) \<le>
          length (enemyProjectiles s) + shotsPerAttack (e_type enemy)) \<and>
     (0 < distanceTo enemy (player s) \<longrightarrow>
        cos (aim enemy (player s)) = (p_x (player s) - e_x enemy) / distanceTo enemy (player s) \<and>
        sin (aim enemy (player s)) = (p_y (player s) - e_y enemy) / distanceTo enemy (player s))"
proof (intro conjI impI)
  assume r: "e_isAttacking enemy \<and> now - e_lastAttackTime enemy \<ge> e_attackCooldown enemy"
  note res = updateEnemyAttack_resolves[OF assms conjunct1[OF r] conjunct2[OF r]]
  show "enemyObjs (updateEnemyAttack ref now s) =
          (enemyObjs s)(ref \<mapsto> enemy\<lparr> e_lastAttackTime := now \<rparr>)"
    using res by simp
  {
    assume "e_type enemy = Melee \<or> e_type enemy = Fast"
    then show "enemyProjectiles (updateEnemyAttack ref now s) = enemyProjectiles s"
      and "player (updateEnemyAttack ref now s) =
             (if distanceTo enemy (player s) < 40
              then (player s)\<lparr> p_health := max 0 (p_health (player s) - e_damage enemy) \<rparr>
              else player s)"
      using res by blast+
  }
  {
    assume "e_type enemy = Ranged"
    then show "enemyProjectiles (updateEnemyAttack ref now s) =
             enemyProjectiles s @ [shot enemy (aim enemy (player s))]"
      and "player (updateEnemyAttack ref now s) = player s"
      using res by blast+
  }
  {
    assume "e_type enemy = Boss"
    then show "enemyProjectiles (updateEnemyAttack ref now s) =
             enemyProjectiles s @ [shot enemy (aim enemy (player s)),
                                   shot enemy (aim enemy (player s) - 0.3),
                                   shot enemy (aim enemy (player s) + 0.3)]"
      and "player (updateEnemyAttack ref now s) = player s"
      using res by blast+
  }
  {
    assume "\<forall>t \<in> set ts. t - now < e_attackCooldown enemy"
    then show "updateEnemyAttacks ref ts (updateEnemyAttack ref now s) = updateEnemyAttack ref now s"
      using updateEnemyAttacks_after[OF assms] r by blast
  }
next
  assume "\<not> (e_isAttacking enemy \<and> now - e_lastAttackTime enemy \<ge> e_attackCooldown enemy)"
  then show "updateEnemyAttack ref now s = s" by (rule updateEnemyAttack_idle[OF assms])
next
  assume "\<forall>t \<in> set ts. \<forall>t' \<in> set ts. t' - t < e_attackCooldown enemy"
  then show "length (enemyProjectiles (updateEnemyAttacks ref ts s)) \<le>
          length (enemyProjectiles s) + shotsPerAttack (e_type enemy)"
    by (rule updateEnemyAttacks_window[OF assms])
next
  assume d: "0 < distanceTo enemy (player s)"
  have "p_x (player s) - e_x enemy \<noteq> 0 \<or> p_y (player s) - e_y enemy \<noteq> 0"
    using d by (auto simp: distanceTo_def)
  then have "cos (aim enemy (player s)) = (p_x (player s) - e_x enemy) / distanceTo enemy (player s) \<and>
        sin (aim enemy (player s)) = (p_y (player s) - e_y enemy) / distanceTo enemy (player s)"
    unfolding aim_def distanceTo_def by (rule atan2_direction)
  then show "cos (aim enemy (player s)) = (p_x (player s) - e_x enemy) / distanceTo enemy (player s)"
    and "sin (aim enemy (player s)) = (p_y (player s) - e_y enemy) / distanceTo enemy (player s)"
    by simp_all
qed

text \<open>
  The enemy stands at (0, 300) and the player at (400, 300), so the direction of the
  player is the angle 0 and the distance 400. The boss (cooldown 1000, last attack at 0)
  does nothing at 500; at 2000 it fires at 0, -0.3 and 0.3 rad, and the frames at 2016,
  2033 and 2999 add nothing, so the four frames leave exactly three projectiles. The
  ranged enemy fires at 0, and the melee enemy is too far to hurt the player.
\<close>

theorem updateEnemyAttack_by_type_witness:
  "(\<exists>enemy. enemyObjs (duel Boss) 0 = Some enemy \<and> e_isAttacking enemy \<and>
      2000 - e_lastAttackTime enemy \<ge> e_attackCooldown enemy \<and> e_type enemy = Boss \<and>
      e_attackCooldown enemy = 1000 \<and>
      updateEnemyAttack 0 500 (duel Boss) = duel Boss \<and>
      enemyProjectiles (updateEnemyAttack 0 2000 (duel Boss)) =
        [shot enemy 0, shot enemy (- 0.3), shot enemy 0.3] \<and>
      updateEnemyAttacks 0 [2016, 2033, 2999] (updateEnemyAttack 0 2000 (duel Boss)) =
        updateEnemyAttack 0 2000 (duel Boss) \<and>
      enemyProjectiles (updateEnemyAttacks 0 [2000, 2016, 2033, 2999] (duel Boss)) =
        [shot enemy 0, shot enemy (- 0.3), shot enemy 0.3] \<and>
      length (enemyProjectiles (updateEnemyAttacks 0 [500, 600, 1200, 1499] (duel Boss))) \<le> 3) \<and>
   (\<exists>enemy. enemyObjs (duel Ranged) 0 = Some enemy \<and> e_isAttacking enemy \<and>
      2000 - e_lastAttackTime enemy \<ge> e_attackCooldown enemy \<and> e_type enemy = Ranged \<and>
      enemyProjectiles (updateEnemyAttack 0 2000 (duel Ranged)) = [shot enemy 0]) \<and>
   (\<exists>enemy. enemyObjs (duel Melee) 0 = Some enemy \<and> e_isAttacking enemy \<and>
      2000 - e_lastAttackTime enemy \<ge> e_attackCooldown enemy \<and> e_type enemy = Melee \<and>
      distanceTo enemy (player (duel Melee)) = 400 \<and>
      enemyProjectiles (updateEnemyAttack 0 2000 (duel Melee)) = [] \<and>
      player (updateEnemyAttack 0 2000 (duel Melee)) = player (duel Melee))"
proof -
  have sq: "sqrt 160000 = 400" by (rule real_sqrt_unique) simp_all
  obtain b where b: "enemyObjs (duel Boss) 0 = Some b" "e_isAttacking b" "e_type b = Boss"
    "2000 - e_lastAttackTime b \<ge> e_attackCooldown b" "aim b (player (duel Boss)) = 0"
    "e_attackCooldown b = 1000" "e_lastAttackTime b = 0"
    by (simp add: duel_simps aim_def Math_atan2_def defaultPlayer_def)
  obtain r where r: "enemyObjs (duel Ranged) 0 = Some r" "e_isAttacking r" "e_type r = Ranged"
    "2000 - e_lastAttackTime r \<ge> e_attackCooldown r" "aim r (player (duel Ranged)) = 0"
    by (simp add: duel_simps aim_def Math_atan2_def defaultPlayer_def)
  obtain m where m: "enemyObjs (duel Melee) 0 = Some m" "e_isAttacking m" "e_type m = Melee"
    "2000 - e_lastAttackTime m \<ge> e_attackCooldown m" "distanceTo m (player (duel Melee)) = 400"
    by (simp add: duel_simps distanceTo_def defaultPlayer_def sq)
  have boss: "updateEnemyAttack 0 500 (duel Boss) = duel Boss"
    "enemyProjectiles (updateEnemyAttack 0 2000 (duel Boss)) = [shot b 0, shot b (- 0.3), shot b 0.3]"
    "updateEnemyAttacks 0 [2016, 2033, 2999] (updateEnemyAttack 0 2000 (duel Boss)) =
        updateEnemyAttack 0 2000 (duel Boss)"
    "length (enemyProjectiles (updateEnemyAttacks 0 [500, 600, 1200, 1499] (duel Boss))) \<le> 3"
    using updateEnemyAttack_by_type[OF b(1), of 500 "[]"]
      updateEnemyAttack_by_type[OF b(1), of 2000 "[2016, 2033, 2999]"]
      updateEnemyAttack_by_type[OF b(1), of 2000 "[500, 600, 1200, 1499]"] b
    by (simp_all add: duel_simps)
  have ranged: "enemyProjectiles (updateEnemyAttack 0 2000 (duel Ranged)) = [shot r 0]"
    using updateEnemyAttack_by_type[OF r(1), of 2000 "[]"] r by (simp add: duel_simps)
  have melee: "enemyProjectiles (updateEnemyAttack 0 2000 (duel Melee)) = []"
    "player (updateEnemyAttack 0 2000 (duel Melee)) = player (duel Melee)"
    using updateEnemyAttack_by_type[OF m(1), of 2000 "[]"] m by (simp_all add: duel_simps)
  have all4: "enemyProjectiles (updateEnemyAttacks 0 [2000, 2016, 2033, 2999] (duel Boss)) =
        [shot b 0, shot b (- 0.3), shot b 0.3]"
    using boss(2,3) by simp
  show ?thesis using b r m boss ranged melee all4 by blast
qed

section \<open>Spawning and floor progression\<close>

lemma isWalkable_Some: "grid_ok (tiles s) \<Longrightarrow> \<exists>w. isWalkable x y s = Some w"
  using grid_ok_tile_at[of "tiles s" "\<lfloor>y / tileSize\<rfloor>" "\<lfloor>x / tileSize\<rfloor>"]
  by (auto simp: isWalkable_def Let_def in_grid_def)

lemma pickPosition_step:
  assumes "isWalkable (fst (Math_random e) * 1600) (fst (Math_random (snd (Math_random e))) * 1600) s = Some w"
  shows "pickPosition a e s =
     (if \<not> w \<and> a + 1 < 50 then pickPosition (a + 1) (snd (Math_random (snd (Math_random e)))) s
      else Some (fst (Math_random e) * 1600, fst (Math_random (snd (Math_random e))) * 1600, a + 1,
                 snd (Math_random (snd (Math_random e)))))"
  by (subst pickPosition.simps) (simp only: Let_def case_prod_beta assms option.case)

lemma pickPosition_ok:
  assumes "grid_ok (tiles s)"
  shows "rnd_ok e \<Longrightarrow> \<exists>x y n e'. pickPosition a e s = Some (x, y, n, e') \<and> rnd_ok e'"
proof (induction "50 - a" arbitrary: a e rule: less_induct)
  case less
  let ?e2 = "snd (Math_random (snd (Math_random e)))"
  have ok2: "rnd_ok ?e2"
    using rnd_ok_Math_random(3) less.prems by blast
  obtain w where w: "isWalkable (fst (Math_random e) * 1600) (fst (Math_random (snd (Math_random e))) * 1600) s = Some w"
    using isWalkable_Some[OF assms] by blast
  note step = pickPosition_step[OF w, of a]
  show ?case
  proof (cases "\<not> w \<and> a + 1 < 50")
    case True
    have "pickPosition a e s = pickPosition (a + 1) ?e2 s"
      unfolding step by (rule if_P[OF True])
    moreover have "50 - (a + 1) < 50 - a" using True by linarith
    ultimately show ?thesis using less.hyps[OF _ ok2, of "a + 1"] by simp
  next
    case False
    have "pickPosition a e s = Some (fst (Math_random e) * 1600, fst (Math_random (snd (Math_random e))) * 1600, a + 1, ?e2)"
      unfolding step by (rule if_not_P[OF False])
    then show ?thesis using ok2 by simp
  qed
qed

lemma js_nth_enemyTypes:
  assumes "0 \<le> i" "i < 3"
  shows "\<exists>ty. js_nth [Melee, Ranged, Fast] i = Some ty \<and> (ty = Melee \<or> ty = Ranged \<or> ty = Fast)"
proof -
  have "i = 0 \<or> i = 1 \<or> i = 2" using assms by arith
  then show ?thesis by (auto simp: js_nth_def)
qed

lemma enemyTypes_index:
  assumes "0 \<le> r" "r < 1"
  shows "\<exists>ty. js_nth [Melee, Ranged, Fast] \<lfloor>r * real (length [Melee, Ranged, Fast])\<rfloor> = Some ty \<and>
           (ty = Melee \<or> ty = Ranged \<or> ty = Fast)"
proof -
  have eq: "real (length [Melee, Ranged, Fast]) = real_of_int 3" by simp
  have "0 \<le> \<lfloor>r * real_of_int 3\<rfloor>" by (rule floor_scaled(1)[OF assms]) simp
  moreover have "\<lfloor>r * real_of_int 3\<rfloor> < 3" by (rule floor_scaled(2)[OF assms]) simp
  ultimately show ?thesis unfolding eq by (rule js_nth_enemyTypes)
qed

lemma createEnemy_new:
  "\<exists>enemy. createEnemy ty x y flr r now s =
      (nextEnemyId s, s\<lparr> nextEnemyId := nextEnemyId s + 1,
                         enemyObjs := (enemyObjs s)(nextEnemyId s \<mapsto> enemy) \<rparr>) \<and>
      e_type enemy = ty \<and> e_health enemy = e_maxHealth enemy \<and>
      e_health enemy = b_health (baseStats ty (1 + (real_of_int flr - 1) * 0.3) (1 + (real_of_int flr - 1) * 0.2))"
  unfolding createEnemy_def Let_def by (intro exI conjI) (rule refl, simp_all)

text \<open>What one call of spawnRandomEnemy does to the state.\<close>

lemma spawnRandomEnemy_ok:
  assumes "grid_ok (tiles s)" "rnd_ok e"
  shows "\<exists>s' e' enemy. spawnRandomEnemy flr e s = Some (s', e') \<and> rnd_ok e' \<and>
           s' = s\<lparr> nextEnemyId := nextEnemyId s + 1,
                   enemyObjs := (enemyObjs s)(nextEnemyId s \<mapsto> enemy),
                   enemies := enemies s @ [nextEnemyId s] \<rparr> \<and>
           (e_type enemy = Melee \<or> e_type enemy = Ranged \<or> e_type enemy = Fast)"
proof -
  define r e1 where "r = fst (Math_random e)" and "e1 = snd (Math_random e)"
  have ok1: "rnd_ok e1" and r: "0 \<le> r" "r < 1"
    unfolding r_def e1_def using rnd_ok_Math_random[OF assms(2)] by simp_all
  obtain ty where ty: "js_nth [Melee, Ranged, Fast] \<lfloor>r * real (length [Melee, Ranged, Fast])\<rfloor> = Some ty"
    "ty = Melee \<or> ty = Ranged \<or> ty = Fast"
    using enemyTypes_index[OF r] by blast
  obtain x0 y0 n e2 where p: "pickPosition 0 e1 s = Some (x0, y0, n, e2)" "rnd_ok e2"
    using pickPosition_ok[OF assms(1) ok1] by blast
  define e3 e4 where "e3 = snd (Math_random e2)" and "e4 = snd (Date_now e3)"
  have ok4: "rnd_ok e4"
    unfolding e4_def e3_def using rnd_ok_Date_now rnd_ok_Math_random(3) p(2) by blast
  define x y where "x = (if n \<ge> 50 then 800 else x0)" and "y = (if n \<ge> 50 then 800 else y0)"
  obtain enemy where en: "createEnemy ty x y flr (fst (Math_random e2)) (fst (Date_now e3)) s =
      (nextEnemyId s, s\<lparr> nextEnemyId := nextEnemyId s + 1,
                         enemyObjs := (enemyObjs s)(nextEnemyId s \<mapsto> enemy) \<rparr>)"
      "e_type enemy = ty"
    using createEnemy_new by blast
  have "spawnRandomEnemy flr e s =
      (let (enemy, s1) = createEnemy ty x y flr (fst (Math_random e2)) (fst (Date_now e3)) s
       in Some (s1\<lparr> enemies := enemies s1 @ [enemy] \<rparr>, e4))"
    using ty(1) p(1)
    by (simp add: spawnRandomEnemy_def Let_def case_prod_beta r_def[symmetric] e1_def[symmetric]
        e3_def e4_def x_def y_def)
  then have "spawnRandomEnemy flr e s =
      Some (s\<lparr> nextEnemyId := nextEnemyId s + 1,
                enemyObjs := (enemyObjs s)(nextEnemyId s \<mapsto> enemy),
                enemies := enemies s @ [nextEnemyId s] \<rparr>, e4)"
    by (simp add: en(1))
  then show ?thesis using ok4 ty(2) en(2) by blast
qed


lemma spawnLoop_ok:
  assumes "grid_ok (tiles s)" "rnd_ok e"
  shows "\<exists>s' e' objs. spawnLoop n flr e s = Some (s', e') \<and> rnd_ok e' \<and>
           s' = s\<lparr> nextEnemyId := nextEnemyId s + n, enemyObjs := objs,
                   enemies := enemies s @ [nextEnemyId s..<nextEnemyId s + n] \<rparr> \<and>
           (\<forall>ref < nextEnemyId s. objs ref = enemyObjs s ref) \<and>
           (\<forall>ref. nextEnemyId s \<le> ref \<and> ref < nextEnemyId s + n \<longrightarrow>
              (\<exists>enemy. objs ref = Some enemy \<and>
                 (e_type enemy = Melee \<or> e_type enemy = Ranged \<or> e_type enemy = Fast)))"
  using assms
proof (induction n arbitrary: e s)
  case 0
  show ?case using "0.prems"(2) by (intro exI[of _ s] exI[of _ e] exI[of _ "enemyObjs s"]) auto
next
  case (Suc n)
  let ?N = "nextEnemyId s"
  obtain s1 e1 en where 1: "spawnRandomEnemy flr e s = Some (s1, e1)" "rnd_ok e1"
    "s1 = s\<lparr> nextEnemyId := ?N + 1, enemyObjs := (enemyObjs s)(?N \<mapsto> en),
             enemies := enemies s @ [?N] \<rparr>"
    "e_type en = Melee \<or> e_type en = Ranged \<or> e_type en = Fast"
    using spawnRandomEnemy_ok[OF Suc.prems] by blast
  have s1: "tiles s1 = tiles s" "nextEnemyId s1 = ?N + 1" "enemies s1 = enemies s @ [?N]"
    "enemyObjs s1 = (enemyObjs s)(?N \<mapsto> en)"
    by (simp_all add: 1(3))
  have ok1: "grid_ok (tiles s1)" using Suc.prems(1) by (simp add: s1)
  obtain s' e' objs where 2: "spawnLoop n flr e1 s1 = Some (s', e')" "rnd_ok e'"
    "s' = s1\<lparr> nextEnemyId := nextEnemyId s1 + n, enemyObjs := objs,
              enemies := enemies s1 @ [nextEnemyId s1..<nextEnemyId s1 + n] \<rparr>"
    "\<forall>ref < nextEnemyId s1. objs ref = enemyObjs s1 ref"
    "\<forall>ref. nextEnemyId s1 \<le> ref \<and> ref < nextEnemyId s1 + n \<longrightarrow>
              (\<exists>enemy. objs ref = Some enemy \<and>
                 (e_type enemy = Melee \<or> e_type enemy = Ranged \<or> e_type enemy = Fast))"
    using Suc.IH[OF ok1 1(2)] by blast
  have run: "spawnLoop (Suc n) flr e s = Some (s', e')" using 1(1) 2(1) by simp
  have upt: "[?N] @ [?N + 1..<?N + 1 + n] = [?N..<?N + Suc n]"
    by (simp add: upt_conv_Cons)
  have shape: "s' = s\<lparr> nextEnemyId := ?N + Suc n, enemyObjs := objs,
                   enemies := enemies s @ [?N..<?N + Suc n] \<rparr>"
    unfolding 2(3) s1 upt[symmetric] by (simp add: 1(3))
  have old: "\<forall>ref < ?N. objs ref = enemyObjs s ref"
    using 2(4) by (simp add: s1)
  have new: "\<exists>enemy. objs ref = Some enemy \<and>
                 (e_type enemy = Melee \<or> e_type enemy = Ranged \<or> e_type enemy = Fast)"
    if "?N \<le> ref \<and> ref < ?N + Suc n" for ref
  proof (cases "ref = ?N")
    case True
    then have "objs ref = Some en" using 2(4) by (simp add: s1)
    then show ?thesis using 1(4) by simp
  next
    case False
    then have "nextEnemyId s1 \<le> ref \<and> ref < nextEnemyId s1 + n" using that by (simp add: s1)
    then show ?thesis using 2(5) by blast
  qed
  show ?case using run 2(2) shape old new by blast
qed



lemma spawnEnemiesForFloor_ok:
  fixes flr :: int
  assumes "grid_ok (tiles s)" "rnd_ok e"
  defines "n \<equiv> nat (min (3 + flr div 2) 15)"
  shows "\<exists>s' e' objs. spawnEnemiesForFloor flr e s = Some (s', e') \<and> rnd_ok e' \<and>
           s' = s\<lparr> enemies := [nextEnemyId s..<nextEnemyId s + n], enemyProjectiles := [],
                   nextEnemyId := nextEnemyId s + n, enemyObjs := objs \<rparr> \<and>
           (\<forall>ref. nextEnemyId s \<le> ref \<and> ref < nextEnemyId s + n \<longrightarrow>
              (\<exists>enemy. objs ref = Some enemy \<and>
                 (e_type enemy = Melee \<or> e_type enemy = Ranged \<or> e_type enemy = Fast)))"
proof -
  let ?s0 = "s\<lparr> enemies := [], enemyProjectiles := [] \<rparr>"
  have ok0: "grid_ok (tiles ?s0)" using assms(1) by simp
  obtain s' e' objs where 1: "spawnLoop n flr e ?s0 = Some (s', e')" "rnd_ok e'"
    "s' = ?s0\<lparr> nextEnemyId := nextEnemyId ?s0 + n, enemyObjs := objs,
                enemies := enemies ?s0 @ [nextEnemyId ?s0..<nextEnemyId ?s0 + n] \<rparr>"
    "\<forall>ref. nextEnemyId ?s0 \<le> ref \<and> ref < nextEnemyId ?s0 + n \<longrightarrow>
              (\<exists>enemy. objs ref = Some enemy \<and>
                 (e_type enemy = Melee \<or> e_type enemy = Ranged \<or> e_type enemy = Fast))"
    using spawnLoop_ok[OF ok0 assms(2), of n flr] by blast
  have "spawnEnemiesForFloor flr e s = Some (s', e')"
    using 1(1) by (simp add: spawnEnemiesForFloor_def Let_def n_def)
  moreover have "s' = s\<lparr> enemies := [nextEnemyId s..<nextEnemyId s + n], enemyProjectiles := [],
                   nextEnemyId := nextEnemyId s + n, enemyObjs := objs \<rparr>"
    unfolding 1(3) by simp
  ultimately show ?thesis using 1(2,4) by auto
qed







text \<open>
  C4. With the level grid in place and \<open>Math.random()\<close> within its contract,
  spawnEnemiesForFloor on a floor \<open>f\<close> from 1 on returns, and the enemy collection is
  then exactly \<open>min (3 + f div 2) 15\<close> enemies, all of them objects created by the call
  (their references start at the value of \<open>nextEnemyId\<close> before it) and no two the same,
  each of type melee, ranged or fast, never boss; the list of enemy projectiles is empty.
\<close>

theorem spawnEnemiesForFloor_roster:
  assumes "grid_ok (tiles s)" and "rnd_ok e" and "1 \<le> flr"
  shows "\<exists>s' e'. spawnEnemiesForFloor flr e s = Some (s', e') \<and>
     int (length (enemies s')) = min (3 + flr div 2) 15 \<and>
     distinct (enemies s') \<and>
     (\<forall>ref \<in> set (enemies s').
        nextEnemyId s \<le> ref \<and>
        (typeOf s' ref = Some Melee \<or> typeOf s' ref = Some Ranged \<or> typeOf s' ref = Some Fast)) \<and>
     enemyProjectiles s' = []"
proof -
  let ?n = "nat (min (3 + flr div 2) 15)"
  let ?N = "nextEnemyId s"
  obtain s' e' objs where 1: "spawnEnemiesForFloor flr e s = Some (s', e')"
    "s' = s\<lparr> enemies := [?N..<?N + ?n], enemyProjectiles := [],
                   nextEnemyId := ?N + ?n, enemyObjs := objs \<rparr>"
    "\<forall>ref. ?N \<le> ref \<and> ref < ?N + ?n \<longrightarrow>
              (\<exists>enemy. objs ref = Some enemy \<and>
                 (e_type enemy = Melee \<or> e_type enemy = Ranged \<or> e_type enemy = Fast))"
    using spawnEnemiesForFloor_ok[OF assms(1,2), of flr] by blast
  have s': "enemies s' = [?N..<?N + ?n]" "enemyProjectiles s' = []" "enemyObjs s' = objs"
    by (simp_all add: 1(2))
  have "0 \<le> min (3 + flr div 2) 15" using assms(3) by simp
  then have len: "int (length (enemies s')) = min (3 + flr div 2) 15" by (simp add: s')
  have types: "nextEnemyId s \<le> ref \<and>
        (typeOf s' ref = Some Melee \<or> typeOf s' ref = Some Ranged \<or> typeOf s' ref = Some Fast)"
    if "ref \<in> set (enemies s')" for ref
  proof -
    have r: "?N \<le> ref \<and> ref < ?N + ?n" using that by (simp add: s')
    then obtain enemy where "objs ref = Some enemy"
      "e_type enemy = Melee \<or> e_type enemy = Ranged \<or> e_type enemy = Fast"
      using 1(3) by blast
    then show ?thesis using r by (auto simp: typeOf_def s')
  qed
  have "distinct (enemies s')" by (simp add: s')
  then show ?thesis using 1(1) len types s'(2) by blast
qed

lemma grid_ok_placedGrid: "grid_ok placedGrid"
  by (auto simp: grid_ok_def placedGrid_def levelHeight_def levelWidth_def)

text \<open>Floors 1, 7 and 40 get 3, 6 and 15 enemies.\<close>

theorem spawnEnemiesForFloor_roster_witness:
  "grid_ok (tiles (sampleFloor 1)) \<and> rnd_ok halfEnv \<and>
   (\<exists>s' e'. spawnEnemiesForFloor 1 halfEnv (sampleFloor 1) = Some (s', e') \<and>
      length (enemies s') = 3 \<and> enemyProjectiles s' = []) \<and>
   (\<exists>s' e'. spawnEnemiesForFloor 7 halfEnv (sampleFloor 1) = Some (s', e') \<and>
      length (enemies s') = 6) \<and>
   (\<exists>s' e'. spawnEnemiesForFloor 40 halfEnv (sampleFloor 1) = Some (s', e') \<and>
      length (enemies s') = 15)"
proof -
  have g: "grid_ok (tiles (sampleFloor 1))" by (simp add: sampleFloor_def grid_ok_placedGrid)
  have r: "rnd_ok halfEnv" by (simp add: rnd_ok_def halfEnv_def)
  show ?thesis
    using g r spawnEnemiesForFloor_roster[OF g r, of 1] spawnEnemiesForFloor_roster[OF g r, of 7]
      spawnEnemiesForFloor_roster[OF g r, of 40]
    by simp blast
qed





end
